theory Spec2Isabelle
  imports Complex_Main
begin

section \<open>MyPitch: range-capture state machine, polling loop and recommendation merge\<close>

text \<open>
  The functions below are the logic of \<^verbatim>\<open>App()\<close> in the redesigned front end
  (\<^verbatim>\<open>src/unnamed/part_001\<close>) and, with the prefix \<open>old_\<close>, of the earlier front end
  (\<^verbatim>\<open>src/src/App.tsx\<close>). React state cells and \<^verbatim>\<open>useRef\<close> cells become the fields of
  a record that each function takes and returns. A JavaScript \<^verbatim>\<open>number\<close> is modelled as
  a \<open>real\<close>: comparisons, \<^verbatim>\<open>Math.max\<close>, \<^verbatim>\<open>Math.min\<close> and \<^verbatim>\<open>Math.abs\<close> agree with
  IEEE doubles on finite values, arithmetic is exact here where doubles round, and
  NaN or infinite values are outside the model except where the code tests for them
  (\<open>jsnum\<close> below). \<^verbatim>\<open>null\<close> is \<open>None\<close>.
\<close>

subsection \<open>Data\<close>

datatype TestStage = Idle | CaptureLow | CaptureHigh | Done

datatype SampleState = SampleIdle | SampleValid | SampleInvalid

record PitchData =
  frequency_hz :: "real option"
  confidence :: real
  note_name :: "string option"
  cents_offset :: "real option"

record RangeResult =
  lowMidi :: "real option"
  highMidi :: "real option"
  comfortLowMidi :: "real option"
  comfortHighMidi :: "real option"

text \<open>\<^verbatim>\<open>fastPassRef\<close>: \<^verbatim>\<open>{ stage, startAt }\<close>.\<close>

record FastPass =
  fp_stage :: "TestStage option"
  fp_startAt :: "real option"

text \<open>\<^verbatim>\<open>stableRef\<close>: \<^verbatim>\<open>{ startAt, lastValidAt, samples }\<close>.\<close>

record Stability =
  startAt :: "real option"
  lastValidAt :: "real option"
  samples :: "real list"

text \<open>The cells the range test reads and writes.\<close>

record Capture =
  testStage :: TestStage
  stageRef :: TestStage
  testInstruction :: string
  stabilityMs :: real
  sampleState :: SampleState
  awaitingResultStep :: bool
  rangeResult :: RangeResult
  fastPassRef :: FastPass
  stageEnteredAtRef :: real
  waitForSilenceBeforeHighRef :: bool
  silenceStartRef :: "real option"
  stableRef :: Stability
  lastGoodPitchRef :: "real option"
  stableHistoryRef :: "real list"
  lowMidiRef :: "real option"
  highMidiRef :: "real option"

subsection \<open>Constants and pure helpers (part\_001, lines 85--119)\<close>

definition CONFIDENCE_THRESHOLD :: real where "CONFIDENCE_THRESHOLD = 0.12"
definition CONFIDENCE_PASS_THRESHOLD :: real where "CONFIDENCE_PASS_THRESHOLD = 0.55"
definition CONFIDENCE_PASS_MS :: real where "CONFIDENCE_PASS_MS = 250"
definition RMS_THRESHOLD :: real where "RMS_THRESHOLD = 0.001"
definition STABLE_REQUIRED_MS :: real where "STABLE_REQUIRED_MS = 600"
definition STABLE_NOTE_DELTA :: real where "STABLE_NOTE_DELTA = 2.0"
definition LEVEL_GAIN :: real where "LEVEL_GAIN = 12"
definition SILENCE_RESET_MS :: real where "SILENCE_RESET_MS = 200"
definition HIGH_STAGE_MIN_DELAY_MS :: real where "HIGH_STAGE_MIN_DELAY_MS = 200"
definition HIGH_NOTE_MIN_SEMITONES :: real where "HIGH_NOTE_MIN_SEMITONES = 0.5"

definition frequencyToMidi :: "real \<Rightarrow> real" where
  "frequencyToMidi freqHz = 69 + 12 * log 2 (freqHz / 440)"

text \<open>
  \<^verbatim>\<open>median\<close>: 0 on the empty array; otherwise the middle element of the sorted copy,
  or the mean of the two middle elements when the length is even.
\<close>

definition median :: "real list \<Rightarrow> real" where
  "median values =
     (if length values = 0 then 0
      else let sorted = sort values; mid = length sorted div 2
           in if length sorted mod 2 = 0 then (sorted ! (mid - 1) + sorted ! mid) / 2
              else sorted ! mid)"

subsection \<open>Range-test logic (part\_001, lines 297--444)\<close>

definition noFastPass :: FastPass where
  "noFastPass = \<lparr>fp_stage = None, fp_startAt = None\<rparr>"

definition emptyStability :: Stability where
  "emptyStability = \<lparr>startAt = None, lastValidAt = None, samples = []\<rparr>"

definition emptyRangeResult :: RangeResult where
  "emptyRangeResult =
     \<lparr>lowMidi = None, highMidi = None, comfortLowMidi = None, comfortHighMidi = None\<rparr>"

definition resetStability :: "Capture \<Rightarrow> Capture" where
  "resetStability s =
     s\<lparr>stableRef := emptyStability, lastGoodPitchRef := None,
       stabilityMs := 0, sampleState := SampleIdle\<rparr>"

definition resetRangeTest :: "Capture \<Rightarrow> Capture" where
  "resetRangeTest s =
     (resetStability
        (s\<lparr>testStage := Idle, stageRef := Idle,
           testInstruction := ''Click Start Range Test to begin.'',
           lowMidiRef := None, highMidiRef := None, stageEnteredAtRef := 0,
           fastPassRef := noFastPass, waitForSilenceBeforeHighRef := False,
           silenceStartRef := None, stableHistoryRef := []\<rparr>))
       \<lparr>rangeResult := emptyRangeResult, awaitingResultStep := False\<rparr>"

definition finishRangeTest :: "Capture \<Rightarrow> Capture" where
  "finishRangeTest s =
     (case (lowMidiRef s, highMidiRef s) of
        (Some low, Some high) \<Rightarrow>
          (let center = (if length (stableHistoryRef s) > 0 then median (stableHistoryRef s)
                         else (low + high) / 2);
               comfortLow = max low (center - 3);
               comfortHigh = min high (center + 3)
           in s\<lparr>rangeResult := \<lparr>lowMidi = Some low, highMidi = Some high,
                                 comfortLowMidi = Some comfortLow,
                                 comfortHighMidi = Some comfortHigh\<rparr>,
                 testInstruction := ''High note captured. Click Next Step to view result.'',
                 testStage := Done, stageRef := Done, awaitingResultStep := True\<rparr>)
      | _ \<Rightarrow>
          s\<lparr>testInstruction := ''Range test did not complete. Please try again.'',
            testStage := Idle, stageRef := Idle\<rparr>)"

definition completeStageWithMidi :: "TestStage \<Rightarrow> real \<Rightarrow> real \<Rightarrow> Capture \<Rightarrow> Capture" where
  "completeStageWithMidi stage stableMidi timestamp s =
     (let s1 = (resetStability s)\<lparr>fastPassRef := noFastPass\<rparr>
      in if stage = CaptureLow then
           s1\<lparr>lowMidiRef := Some stableMidi,
              rangeResult := (rangeResult s1)\<lparr>lowMidi := Some stableMidi\<rparr>,
              testInstruction :=
                ''Low note captured. Now sing your highest comfortable note and hold for 1 second.'',
              testStage := CaptureHigh, stageRef := CaptureHigh,
              stageEnteredAtRef := timestamp,
              waitForSilenceBeforeHighRef := False, silenceStartRef := None\<rparr>
         else if timestamp - stageEnteredAtRef s1 < HIGH_STAGE_MIN_DELAY_MS then s1
         else if (case lowMidiRef s1 of None \<Rightarrow> False
                  | Some low \<Rightarrow> stableMidi < low + HIGH_NOTE_MIN_SEMITONES) then
           s1\<lparr>testInstruction :=
                ''Detected pitch is too close to low note. Please sing higher and hold.''\<rparr>
         else
           finishRangeTest
             (s1\<lparr>highMidiRef := Some stableMidi,
                 rangeResult := (rangeResult s1)\<lparr>highMidi := Some stableMidi\<rparr>\<rparr>))"

text \<open>
  \<^verbatim>\<open>handlePitchSampleForRangeTest\<close> is one function in the source; its four parts are
  named here. Lines 371--386: the block guarded by \<^verbatim>\<open>waitForSilenceBeforeHighRef\<close>.
  It has no \<^verbatim>\<open>return\<close>: control always goes on to the validity test.
\<close>

definition silenceGate :: "real \<Rightarrow> real \<Rightarrow> Capture \<Rightarrow> Capture" where
  "silenceGate timestamp level s =
     (if stageRef s = CaptureHigh \<and> waitForSilenceBeforeHighRef s then
        (if level < RMS_THRESHOLD * 0.6 then
           (let start = (case silenceStartRef s of None \<Rightarrow> timestamp | Some t0 \<Rightarrow> t0);
                s1 = s\<lparr>silenceStartRef := Some start\<rparr>
            in if timestamp - start \<ge> SILENCE_RESET_MS then
                 s1\<lparr>waitForSilenceBeforeHighRef := False, silenceStartRef := None,
                    testInstruction :=
                      ''Now sing your highest comfortable note and hold for 1 second.'',
                    sampleState := SampleIdle\<rparr>
               else s1)
         else
           s\<lparr>silenceStartRef := None,
             testInstruction := ''Pause briefly (near silence), then sing your highest note.''\<rparr>)
      else s)"

text \<open>Lines 387--389: \<^verbatim>\<open>hasFreq\<close>, \<^verbatim>\<open>confidenceOk\<close> and \<^verbatim>\<open>isValid\<close>.\<close>

definition hasFreq :: "PitchData \<Rightarrow> bool" where
  "hasFreq pitch = (case frequency_hz pitch of None \<Rightarrow> False | Some f \<Rightarrow> f > 0)"

definition confidenceOk :: "PitchData \<Rightarrow> bool" where
  "confidenceOk pitch =
     (confidence pitch > CONFIDENCE_THRESHOLD \<or> note_name pitch \<noteq> None)"

definition isValid :: "real \<Rightarrow> PitchData \<Rightarrow> bool" where
  "isValid level pitch =
     (level > RMS_THRESHOLD \<and> hasFreq pitch \<and> (confidenceOk pitch \<or> hasFreq pitch))"

text \<open>Lines 391--398: the branch taken by an invalid sample.\<close>

definition invalidSample :: "real \<Rightarrow> Capture \<Rightarrow> Capture" where
  "invalidSample timestamp s =
     (let s1 = s\<lparr>fastPassRef := noFastPass, sampleState := SampleInvalid\<rparr>
      in case lastValidAt (stableRef s1) of
           Some lastValid \<Rightarrow>
             if timestamp - lastValid < 1200 then s1 else resetStability s1
         | None \<Rightarrow> resetStability s1)"

text \<open>Lines 412--415: smoothing against the previous accepted pitch.\<close>

definition smoothMidi :: "real option \<Rightarrow> real \<Rightarrow> real" where
  "smoothMidi prevGood midi =
     (case prevGood of
        Some prev \<Rightarrow> if \<bar>midi - prev\<bar> \<le> 4 then prev * 0.65 + midi * 0.35 else midi
      | None \<Rightarrow> midi)"

text \<open>
  Lines 434--436: \<^verbatim>\<open>push\<close>, then \<^verbatim>\<open>shift\<close> when the length exceeds 20.
\<close>

definition pushCapped :: "real list \<Rightarrow> real \<Rightarrow> real list" where
  "pushCapped buf x = (let pushed = buf @ [x] in if length pushed > 20 then tl pushed else pushed)"

text \<open>Lines 411--443: the stability window, entered by a valid sample that did not fast-pass.\<close>

definition stabilityWindow :: "TestStage \<Rightarrow> real \<Rightarrow> real \<Rightarrow> Capture \<Rightarrow> Capture" where
  "stabilityWindow stage timestamp freq s =
     (let s1 = s\<lparr>sampleState := SampleValid\<rparr>;
          sm = smoothMidi (lastGoodPitchRef s1) (frequencyToMidi freq);
          s2 = s1\<lparr>lastGoodPitchRef := Some sm\<rparr>;
          stability = stableRef s2;
          restarted = s2\<lparr>stableRef := \<lparr>startAt = Some timestamp, lastValidAt = Some timestamp,
                                         samples = [sm]\<rparr>,
                          stabilityMs := 0\<rparr>
      in if length (samples stability) = 0 then restarted
         else if \<bar>sm - median (samples stability)\<bar> > STABLE_NOTE_DELTA then restarted
         else
           (let kept = pushCapped (samples stability) sm;
                elapsed = (case startAt stability of Some a \<Rightarrow> timestamp - a | None \<Rightarrow> 0);
                s3 = s2\<lparr>stableRef := stability\<lparr>lastValidAt := Some timestamp, samples := kept\<rparr>,
                        stableHistoryRef := stableHistoryRef s2 @ [sm],
                        stabilityMs := elapsed\<rparr>
            in if elapsed \<ge> STABLE_REQUIRED_MS
               then completeStageWithMidi stage (median kept) timestamp s3
               else s3))"

text \<open>Lines 400--410 followed by the window: what a valid sample of frequency \<open>freq\<close> does.\<close>

definition validSample :: "TestStage \<Rightarrow> real \<Rightarrow> PitchData \<Rightarrow> real \<Rightarrow> Capture \<Rightarrow> Capture" where
  "validSample stage timestamp pitch freq s =
     (let fastPass = fastPassRef s
      in if confidence pitch \<ge> CONFIDENCE_PASS_THRESHOLD then
           (case (fp_stage fastPass = Some stage, fp_startAt fastPass) of
              (True, Some started) \<Rightarrow>
                if timestamp - started \<ge> CONFIDENCE_PASS_MS
                then completeStageWithMidi stage (frequencyToMidi freq) timestamp s
                else stabilityWindow stage timestamp freq s
            | _ \<Rightarrow>
                stabilityWindow stage timestamp freq
                  (s\<lparr>fastPassRef := \<lparr>fp_stage = Some stage, fp_startAt = Some timestamp\<rparr>\<rparr>))
         else if fp_stage (fastPassRef s) = Some stage then
           stabilityWindow stage timestamp freq (s\<lparr>fastPassRef := noFastPass\<rparr>)
         else stabilityWindow stage timestamp freq s)"

definition handlePitchSampleForRangeTest :: "real \<Rightarrow> real \<Rightarrow> PitchData \<Rightarrow> Capture \<Rightarrow> Capture" where
  "handlePitchSampleForRangeTest timestamp level pitch s =
     (let stage = stageRef s
      in if stage \<noteq> CaptureLow \<and> stage \<noteq> CaptureHigh then s
         else
           (let s1 = silenceGate timestamp level s
            in case frequency_hz pitch of
                 None \<Rightarrow> invalidSample timestamp s1
               | Some freq \<Rightarrow>
                   if \<not> isValid level pitch then invalidSample timestamp s1
                   else validSample stage timestamp pitch freq s1))"

text \<open>
  The cells as \<^verbatim>\<open>useState\<close> and \<^verbatim>\<open>useRef\<close> initialise them (lines 239--284), and the
  part of \<^verbatim>\<open>startRangeTest\<close> that runs once the stream has started (lines 565--570),
  with \<open>now\<close> the value of \<^verbatim>\<open>Date.now()\<close>.
\<close>

definition initialCapture :: Capture where
  "initialCapture =
     \<lparr>testStage = Idle, stageRef = Idle,
      testInstruction = ''Click Start Range Test to begin.'',
      stabilityMs = 0, sampleState = SampleIdle, awaitingResultStep = False,
      rangeResult = emptyRangeResult, fastPassRef = noFastPass, stageEnteredAtRef = 0,
      waitForSilenceBeforeHighRef = False, silenceStartRef = None,
      stableRef = emptyStability, lastGoodPitchRef = None, stableHistoryRef = [],
      lowMidiRef = None, highMidiRef = None\<rparr>"

definition startRangeTest :: "real \<Rightarrow> Capture \<Rightarrow> Capture" where
  "startRangeTest now s =
     (resetRangeTest s)
       \<lparr>testStage := CaptureLow, stageRef := CaptureLow, stageEnteredAtRef := now,
        awaitingResultStep := False,
        testInstruction := ''Sing your lowest comfortable note and hold for 1 second.''\<rparr>"

text \<open>A stream of samples \<open>(timestamp, level, pitch)\<close>, handled in order.\<close>

fun feed :: "Capture \<Rightarrow> (real \<times> real \<times> PitchData) list \<Rightarrow> Capture" where
  "feed s [] = s"
| "feed s ((timestamp, level, pitch) # rest) =
     feed (handlePitchSampleForRangeTest timestamp level pitch s) rest"

text \<open>The states a stream passes through: before its first sample and after each one.\<close>

fun feedStates :: "Capture \<Rightarrow> (real \<times> real \<times> PitchData) list \<Rightarrow> Capture list" where
  "feedStates s [] = [s]"
| "feedStates s ((timestamp, level, pitch) # rest) =
     s # feedStates (handlePitchSampleForRangeTest timestamp level pitch s) rest"

text \<open>
  The timestamps of a stream are readings of \<^verbatim>\<open>Date.now()\<close> in successive ticks:
  \<open>clockFrom now stream\<close> says that they never decrease, starting from \<open>now\<close>.
\<close>

fun clockFrom :: "real \<Rightarrow> (real \<times> real \<times> PitchData) list \<Rightarrow> bool" where
  "clockFrom now [] = True"
| "clockFrom now ((timestamp, level, pitch) # rest) = (now \<le> timestamp \<and> clockFrom timestamp rest)"

text \<open>
  What holds of the capture state at clock reading \<open>now\<close> throughout a test: the stage was
  entered in the past, the gate is clear, the window's anchor and the fast-pass dwell lie
  inside the stage, no high note is recorded while capturing, and the high stage has a
  low note.
\<close>

definition wellTimed :: "real \<Rightarrow> Capture \<Rightarrow> bool" where
  "wellTimed now s =
     (stageEnteredAtRef s \<le> now
      \<and> \<not> waitForSilenceBeforeHighRef s
      \<and> (case startAt (stableRef s) of None \<Rightarrow> True | Some a \<Rightarrow> stageEnteredAtRef s \<le> a)
      \<and> (case fp_startAt (fastPassRef s) of None \<Rightarrow> True | Some t0 \<Rightarrow> stageEnteredAtRef s \<le> t0)
      \<and> (if stageRef s = CaptureLow then highMidiRef s = None
         else if stageRef s = CaptureHigh then highMidiRef s = None \<and> lowMidiRef s \<noteq> None
         else True))"

subsection \<open>The earlier front end (src/src/App.tsx, lines 69--102 and 215--393)\<close>

definition old_CONFIDENCE_THRESHOLD :: real where "old_CONFIDENCE_THRESHOLD = 0.12"
definition old_CONFIDENCE_PASS_THRESHOLD :: real where "old_CONFIDENCE_PASS_THRESHOLD = 0.55"
definition old_CONFIDENCE_PASS_MS :: real where "old_CONFIDENCE_PASS_MS = 250"
definition old_RMS_THRESHOLD :: real where "old_RMS_THRESHOLD = 0.001"
definition old_STABLE_REQUIRED_MS :: real where "old_STABLE_REQUIRED_MS = 600"
definition old_STABLE_NOTE_DELTA :: real where "old_STABLE_NOTE_DELTA = 2.0"
definition old_SILENCE_RESET_MS :: real where "old_SILENCE_RESET_MS = 200"
definition old_HIGH_STAGE_MIN_DELAY_MS :: real where "old_HIGH_STAGE_MIN_DELAY_MS = 200"
definition old_HIGH_NOTE_MIN_SEMITONES :: real where "old_HIGH_NOTE_MIN_SEMITONES = 0.5"

definition old_frequencyToMidi :: "real \<Rightarrow> real" where
  "old_frequencyToMidi freqHz = 69 + 12 * log 2 (freqHz / 440)"

definition old_median :: "real list \<Rightarrow> real" where
  "old_median values =
     (if length values = 0 then 0
      else let sorted = sort values; mid = length sorted div 2
           in if length sorted mod 2 = 0 then (sorted ! (mid - 1) + sorted ! mid) / 2
              else sorted ! mid)"

definition old_resetStability :: "Capture \<Rightarrow> Capture" where
  "old_resetStability s =
     s\<lparr>stableRef := \<lparr>startAt = None, lastValidAt = None, samples = []\<rparr>,
       lastGoodPitchRef := None, stabilityMs := 0, sampleState := SampleIdle\<rparr>"

definition old_finishRangeTest :: "Capture \<Rightarrow> Capture" where
  "old_finishRangeTest s =
     (case lowMidiRef s of
        None \<Rightarrow>
          s\<lparr>testInstruction := ''Range test did not complete. Please try again.'',
            testStage := Idle, stageRef := Idle\<rparr>
      | Some low \<Rightarrow>
          (case highMidiRef s of
             None \<Rightarrow>
               s\<lparr>testInstruction := ''Range test did not complete. Please try again.'',
                 testStage := Idle, stageRef := Idle\<rparr>
           | Some high \<Rightarrow>
               (let center = (if length (stableHistoryRef s) > 0
                              then old_median (stableHistoryRef s) else (low + high) / 2);
                    comfortLow = max low (center - 3);
                    comfortHigh = min high (center + 3)
                in s\<lparr>rangeResult := \<lparr>lowMidi = Some low, highMidi = Some high,
                                      comfortLowMidi = Some comfortLow,
                                      comfortHighMidi = Some comfortHigh\<rparr>,
                      testInstruction := ''High note captured. Click Next Step to view result.'',
                      testStage := Done, stageRef := Done, awaitingResultStep := True\<rparr>)))"

definition old_completeStageWithMidi ::
  "TestStage \<Rightarrow> real \<Rightarrow> real \<Rightarrow> Capture \<Rightarrow> Capture" where
  "old_completeStageWithMidi stage stableMidi timestamp s =
     (let s1 = (old_resetStability s)\<lparr>fastPassRef := \<lparr>fp_stage = None, fp_startAt = None\<rparr>\<rparr>
      in if stage = CaptureLow then
           s1\<lparr>lowMidiRef := Some stableMidi,
              rangeResult := (rangeResult s1)\<lparr>lowMidi := Some stableMidi\<rparr>,
              testInstruction :=
                ''Low note captured. Now sing your highest comfortable note and hold for 1 second.'',
              testStage := CaptureHigh, stageRef := CaptureHigh,
              stageEnteredAtRef := timestamp,
              waitForSilenceBeforeHighRef := False, silenceStartRef := None\<rparr>
         else if timestamp - stageEnteredAtRef s1 < old_HIGH_STAGE_MIN_DELAY_MS then s1
         else if (case lowMidiRef s1 of None \<Rightarrow> False
                  | Some low \<Rightarrow> stableMidi < low + old_HIGH_NOTE_MIN_SEMITONES) then
           s1\<lparr>testInstruction :=
                ''Detected pitch is too close to low note. Please sing higher and hold.''\<rparr>
         else
           old_finishRangeTest
             (s1\<lparr>highMidiRef := Some stableMidi,
                 rangeResult := (rangeResult s1)\<lparr>highMidi := Some stableMidi\<rparr>\<rparr>))"

text \<open>
  The earlier handler, lines 304--393, in the order of its statements. In the branch of a
  valid sample \<^verbatim>\<open>pitch.frequency_hz\<close> is a number: the test before it has excluded
  \<^verbatim>\<open>null\<close>, so the \<open>None\<close> case there is never reached.
\<close>

definition old_gate :: "real \<Rightarrow> real \<Rightarrow> Capture \<Rightarrow> Capture" where
  "old_gate timestamp level s =
     (if stageRef s = CaptureHigh \<and> waitForSilenceBeforeHighRef s then
        (if level < old_RMS_THRESHOLD * 0.6 then
           (let start = (case silenceStartRef s of None \<Rightarrow> timestamp | Some t0 \<Rightarrow> t0);
                s1 = s\<lparr>silenceStartRef := Some start\<rparr>
            in if timestamp - start \<ge> old_SILENCE_RESET_MS then
                 s1\<lparr>waitForSilenceBeforeHighRef := False, silenceStartRef := None,
                    testInstruction :=
                      ''Now sing your highest comfortable 'ah' and hold for 1 second.'',
                    sampleState := SampleIdle\<rparr>
               else s1)
         else
           s\<lparr>silenceStartRef := None,
             testInstruction := ''Pause briefly (near silence), then sing your highest note.''\<rparr>)
      else s)"

definition old_window :: "TestStage \<Rightarrow> real \<Rightarrow> real \<Rightarrow> Capture \<Rightarrow> Capture" where
  "old_window stage timestamp freq s =
     (let midi = old_frequencyToMidi freq;
          sm = (case lastGoodPitchRef s of
                  None \<Rightarrow> midi
                | Some prevGood \<Rightarrow>
                    if \<bar>midi - prevGood\<bar> \<le> 4 then prevGood * 0.65 + midi * 0.35 else midi);
          s2 = s\<lparr>sampleState := SampleValid, lastGoodPitchRef := Some sm\<rparr>;
          stability = stableRef s2
      in if length (samples stability) = 0 then
           s2\<lparr>stableRef := stability\<lparr>startAt := Some timestamp, lastValidAt := Some timestamp,
                                      samples := [sm]\<rparr>,
              stabilityMs := 0\<rparr>
         else if \<bar>sm - old_median (samples stability)\<bar> > old_STABLE_NOTE_DELTA then
           s2\<lparr>stableRef := stability\<lparr>startAt := Some timestamp, lastValidAt := Some timestamp,
                                      samples := [sm]\<rparr>,
              stabilityMs := 0\<rparr>
         else
           (let pushed = samples stability @ [sm];
                kept = (if length pushed > 20 then tl pushed else pushed);
                elapsed = (case startAt stability of None \<Rightarrow> 0 | Some a \<Rightarrow> timestamp - a);
                s3 = s2\<lparr>stableRef := stability\<lparr>lastValidAt := Some timestamp, samples := kept\<rparr>,
                        stableHistoryRef := stableHistoryRef s2 @ [sm],
                        stabilityMs := elapsed\<rparr>
            in if elapsed \<ge> old_STABLE_REQUIRED_MS
               then old_completeStageWithMidi stage (old_median kept) timestamp s3
               else s3))"

definition old_handlePitchSampleForRangeTest ::
  "real \<Rightarrow> real \<Rightarrow> PitchData \<Rightarrow> Capture \<Rightarrow> Capture" where
  "old_handlePitchSampleForRangeTest timestamp level pitch s =
     (let stage = stageRef s
      in if stage \<noteq> CaptureLow \<and> stage \<noteq> CaptureHigh then s
         else
           (let s1 = old_gate timestamp level s;
                hasFreq = (case frequency_hz pitch of None \<Rightarrow> False | Some f \<Rightarrow> f > 0);
                confidenceOk = (confidence pitch > old_CONFIDENCE_THRESHOLD
                                \<or> note_name pitch \<noteq> None);
                isValid = (level > old_RMS_THRESHOLD \<and> hasFreq \<and> (confidenceOk \<or> hasFreq))
            in if \<not> isValid \<or> frequency_hz pitch = None then
                 (let s2 = s1\<lparr>fastPassRef := \<lparr>fp_stage = None, fp_startAt = None\<rparr>,
                            sampleState := SampleInvalid\<rparr>
                  in if (case lastValidAt (stableRef s2) of None \<Rightarrow> False
                         | Some lastValid \<Rightarrow> timestamp - lastValid < 1200)
                     then s2 else old_resetStability s2)
               else
                 (case frequency_hz pitch of
                    None \<Rightarrow> s1
                  | Some freq \<Rightarrow>
                      (if confidence pitch \<ge> old_CONFIDENCE_PASS_THRESHOLD then
                         (if fp_stage (fastPassRef s1) \<noteq> Some stage
                             \<or> fp_startAt (fastPassRef s1) = None then
                            old_window stage timestamp freq
                              (s1\<lparr>fastPassRef :=
                                    \<lparr>fp_stage = Some stage, fp_startAt = Some timestamp\<rparr>\<rparr>)
                          else if (case fp_startAt (fastPassRef s1) of None \<Rightarrow> False
                                   | Some started \<Rightarrow>
                                       timestamp - started \<ge> old_CONFIDENCE_PASS_MS)
                          then old_completeStageWithMidi stage (old_frequencyToMidi freq)
                                 timestamp s1
                          else old_window stage timestamp freq s1)
                       else if fp_stage (fastPassRef s1) = Some stage then
                         old_window stage timestamp freq
                           (s1\<lparr>fastPassRef := \<lparr>fp_stage = None, fp_startAt = None\<rparr>\<rparr>)
                       else old_window stage timestamp freq s1))))"

fun old_feed :: "Capture \<Rightarrow> (real \<times> real \<times> PitchData) list \<Rightarrow> Capture" where
  "old_feed s [] = s"
| "old_feed s ((timestamp, level, pitch) # rest) =
     old_feed (old_handlePitchSampleForRangeTest timestamp level pitch s) rest"

text \<open>
  The capture state without the user-facing instruction text: the stage, the recorded
  low and high, the window and its anchor, the fast-pass cell, the history and the
  \<^verbatim>\<open>RangeResult\<close> are all kept.
\<close>

definition withoutInstruction :: "Capture \<Rightarrow> Capture" where
  "withoutInstruction s = s\<lparr>testInstruction := []\<rparr>"

subsection \<open>The polling loop (part\_001, lines 446--500)\<close>

text \<open>
  A value that the back end returns as a \<^verbatim>\<open>number\<close> and that the code tests with
  \<^verbatim>\<open>Number.isFinite\<close>; the outcome of an awaited \<^verbatim>\<open>invoke\<close>, which resolves to a
  value or rejects with a message.
\<close>

datatype jsnum = Finite real | NonFinite

datatype 'a invoked = Resolved 'a | Rejected string

text \<open>What \<^verbatim>\<open>get_pitch_data\<close> resolves to, before the loop sanitises it.\<close>

record RawPitch =
  raw_frequency_hz :: "real option"
  raw_confidence :: jsnum
  raw_note_name :: "string option"
  raw_cents_offset :: "real option"

record SongRecommendation =
  title :: string
  artist :: string
  shift :: int
  fit_score :: int
  is_imported :: bool

text \<open>The commands of the back end that \<^verbatim>\<open>loadRecommendations\<close> invokes.\<close>

datatype Command =
    RecommendImportedSongs
  | RecommendSongs (userLowMidi: int) (userHighMidi: int) (qComfortLowMidi: int) (qComfortHighMidi: int)

text \<open>
  The cells of \<^verbatim>\<open>App\<close> outside the range test. \<open>invokeLog\<close> is not a cell of the
  program: it records, in order, the recommendation commands that were invoked.
\<close>

record App =
  status :: string
  inputLevel :: real
  rawInputLevel :: real
  inputLevelRef :: real
  rawInputLevelRef :: real
  pitchData :: PitchData
  pollTimerRef :: "nat option"
  pollErrorCountRef :: nat
  pollInFlightRef :: bool
  capture :: Capture
  recommendations :: "SongRecommendation list"
  showAllRecommendations :: bool
  recoFilter :: string
  invokeLog :: "Command list"

text \<open>One firing of the interval: \<^verbatim>\<open>Date.now()\<close> and the outcomes of the two calls.\<close>

record Tick =
  tick_now :: real
  tick_level :: "jsnum invoked"
  tick_pitch :: "RawPitch invoked"

definition nullPitch :: PitchData where
  "nullPitch = \<lparr>frequency_hz = None, confidence = 0, note_name = None, cents_offset = None\<rparr>"

definition stopLevelPolling :: "App \<Rightarrow> App" where
  "stopLevelPolling a =
     a\<lparr>pollTimerRef := None, inputLevel := 0, rawInputLevel := 0,
       inputLevelRef := 0, rawInputLevelRef := 0, pitchData := nullPitch,
       pollErrorCountRef := 0, pollInFlightRef := False\<rparr>"

text \<open>\<^verbatim>\<open>startLevelPolling\<close> stops the loop and installs the interval \<open>timer\<close>.\<close>

definition startLevelPolling :: "nat \<Rightarrow> App \<Rightarrow> App" where
  "startLevelPolling timer a = (stopLevelPolling a)\<lparr>pollTimerRef := Some timer\<rparr>"

text \<open>Lines 467--477: the first \<^verbatim>\<open>try\<close>; returns the state, \<^verbatim>\<open>sampledLevel\<close> and success.\<close>

definition pollLevel :: "jsnum invoked \<Rightarrow> App \<Rightarrow> App \<times> real \<times> bool" where
  "pollLevel outcome a =
     (case outcome of
        Rejected _ \<Rightarrow> (a, rawInputLevelRef a, False)
      | Resolved level \<Rightarrow>
          (let safeLevel = (case level of Finite v \<Rightarrow> max 0 (min 1 v) | NonFinite \<Rightarrow> 0);
               boostedLevel = max 0 (min 1 (safeLevel * LEVEL_GAIN))
           in (a\<lparr>rawInputLevel := safeLevel, rawInputLevelRef := safeLevel,
                 inputLevel := boostedLevel, inputLevelRef := boostedLevel\<rparr>,
               safeLevel, True)))"

text \<open>Lines 478--489: the second \<^verbatim>\<open>try\<close>; returns the state and success.\<close>

definition pollPitch :: "real \<Rightarrow> real \<Rightarrow> RawPitch invoked \<Rightarrow> App \<Rightarrow> App \<times> bool" where
  "pollPitch now sampledLevel outcome a =
     (case outcome of
        Rejected _ \<Rightarrow> (a, False)
      | Resolved pitch \<Rightarrow>
          (let safePitch =
                 \<lparr>frequency_hz = raw_frequency_hz pitch,
                  confidence = (case raw_confidence pitch of
                                  Finite c \<Rightarrow> max 0 (min 1 c) | NonFinite \<Rightarrow> 0),
                  note_name = raw_note_name pitch,
                  cents_offset = raw_cents_offset pitch\<rparr>
           in (a\<lparr>pitchData := safePitch,
                 capture := handlePitchSampleForRangeTest now sampledLevel safePitch (capture a)\<rparr>,
               True)))"

definition pollTick :: "Tick \<Rightarrow> App \<Rightarrow> App" where
  "pollTick ev a =
     (if pollInFlightRef a then a
      else
        (let a0 = a\<lparr>pollInFlightRef := True\<rparr>;
             (a1, sampledLevel, levelOk) = pollLevel (tick_level ev) a0;
             (a2, pitchOk) = pollPitch (tick_now ev) sampledLevel (tick_pitch ev) a1;
             hasAnySuccess = (levelOk \<or> pitchOk);
             a3 = a2\<lparr>pollErrorCountRef :=
                        (if hasAnySuccess then 0 else pollErrorCountRef a2 + 1)\<rparr>;
             a4 = (if pollErrorCountRef a3 \<ge> 20 then stopLevelPolling a3 else a3)
         in a4\<lparr>pollInFlightRef := False\<rparr>))"

text \<open>The interval fires only while \<^verbatim>\<open>pollTimerRef\<close> holds a timer.\<close>

fun pollRun :: "App \<Rightarrow> Tick list \<Rightarrow> App" where
  "pollRun a [] = a"
| "pollRun a (ev # evs) = (if pollTimerRef a = None then a else pollRun (pollTick ev a) evs)"

definition bothFail :: "Tick \<Rightarrow> bool" where
  "bothFail ev =
     ((case tick_level ev of Rejected _ \<Rightarrow> True | Resolved _ \<Rightarrow> False)
      \<and> (case tick_pitch ev of Rejected _ \<Rightarrow> True | Resolved _ \<Rightarrow> False))"

text \<open>
  Lines 1301 and 1341--1344: the status bar shows a dot, lit while \<^verbatim>\<open>pollTimerRef\<close> holds
  a timer, and the status text.
\<close>

definition isStreamActive :: "App \<Rightarrow> bool" where
  "isStreamActive a = (pollTimerRef a \<noteq> None)"

definition statusBar :: "App \<Rightarrow> bool \<times> string" where
  "statusBar a = (isStreamActive a, status a)"

subsection \<open>Loading and showing recommendations (part\_001, lines 587--627 and 1110--1127)\<close>

text \<open>\<^verbatim>\<open>Math.round\<close>: the nearest integer, halves rounded up.\<close>

definition jsRound :: "real \<Rightarrow> int" where
  "jsRound x = \<lfloor>x + 1 / 2\<rfloor>"

text \<open>The key \<^verbatim>\<open>`${s.title}::${s.artist}`\<close>.\<close>

definition songKey :: "SongRecommendation \<Rightarrow> string" where
  "songKey s = title s @ ''::'' @ artist s"

text \<open>Lines 613--619: the loop over \<^verbatim>\<open>importedOnly\<close>, with \<^verbatim>\<open>seen\<close> and \<^verbatim>\<open>merged\<close>.\<close>

fun mergeImported ::
  "string set \<Rightarrow> SongRecommendation list \<Rightarrow> SongRecommendation list \<Rightarrow> SongRecommendation list"
where
  "mergeImported seen merged [] = merged"
| "mergeImported seen merged (song # rest) =
     (if songKey song \<in> seen then mergeImported seen merged rest
      else mergeImported (insert (songKey song) seen) (merged @ [song]) rest)"

definition loadFailed :: "string \<Rightarrow> App \<Rightarrow> App" where
  "loadFailed err a =
     a\<lparr>status := ''Failed to load recommendations: '' @ err,
       recommendations := [], showAllRecommendations := False\<rparr>"

definition loadMerged :: "SongRecommendation list \<Rightarrow> SongRecommendation list \<Rightarrow> App \<Rightarrow> App" where
  "loadMerged recs importedOnly a =
     a\<lparr>recommendations := mergeImported (set (map songKey recs)) recs importedOnly,
       showAllRecommendations := False\<rparr>"

text \<open>
  \<^verbatim>\<open>loadRecommendations\<close>. The two commands are functions of the back end, which is not
  part of the front end: \<open>importedReply\<close> is the outcome of \<^verbatim>\<open>recommend_imported_songs\<close>
  and \<open>rangedReply q\<close> the outcome of \<^verbatim>\<open>recommend_songs\<close> with the arguments \<open>q\<close>.
\<close>

definition loadRecommendations ::
  "SongRecommendation list invoked \<Rightarrow> (Command \<Rightarrow> SongRecommendation list invoked) \<Rightarrow> App \<Rightarrow> App"
where
  "loadRecommendations importedReply rangedReply a =
     (let rr = rangeResult (capture a);
          a0 = a\<lparr>invokeLog := invokeLog a @ [RecommendImportedSongs]\<rparr>
      in case importedReply of
           Rejected err \<Rightarrow> loadFailed err a0
         | Resolved importedOnly \<Rightarrow>
             (case (lowMidi rr, highMidi rr, comfortLowMidi rr, comfortHighMidi rr) of
                (Some low, Some high, Some comfortLow, Some comfortHigh) \<Rightarrow>
                  (let primary = RecommendSongs (jsRound low) (jsRound high)
                                   (jsRound comfortLow) (jsRound comfortHigh);
                       a1 = a0\<lparr>invokeLog := invokeLog a0 @ [primary]\<rparr>
                   in case rangedReply primary of
                        Rejected err \<Rightarrow> loadFailed err a1
                      | Resolved recs \<Rightarrow>
                          if length recs = 0 then
                            (let fallback = RecommendSongs (jsRound low - 4) (jsRound high + 4)
                                              (jsRound comfortLow - 2) (jsRound comfortHigh + 2);
                                 a2 = a1\<lparr>invokeLog := invokeLog a1 @ [fallback]\<rparr>
                             in case rangedReply fallback of
                                  Rejected err \<Rightarrow> loadFailed err a2
                                | Resolved recs2 \<Rightarrow>
                                    loadMerged recs2 importedOnly
                                      (if length recs2 > 0
                                       then a2\<lparr>status :=
                                              ''No strict matches. Showing closest challenge songs.''\<rparr>
                                       else a2))
                          else loadMerged recs importedOnly a1)
              | _ \<Rightarrow> loadMerged [] importedOnly a0))"

text \<open>
  Lines 1110--1123: the list shown. With \<^verbatim>\<open>showAllRecommendations\<close> off it is the first
  five followed by the imported songs whose key is not yet \<^verbatim>\<open>seen\<close>.
\<close>

fun unseenImported :: "string set \<Rightarrow> SongRecommendation list \<Rightarrow> SongRecommendation list" where
  "unseenImported seen [] = []"
| "unseenImported seen (s # rest) =
     (if \<not> is_imported s then unseenImported seen rest
      else if songKey s \<in> seen then unseenImported seen rest
      else s # unseenImported (insert (songKey s) seen) rest)"

definition visibleRecommendations :: "App \<Rightarrow> SongRecommendation list" where
  "visibleRecommendations a =
     (if showAllRecommendations a then recommendations a
      else (let top = take 5 (recommendations a)
            in top @ unseenImported (set (map songKey top)) (recommendations a)))"

text \<open>Lines 121--132 and 1125--1127: the bucket of a score and the filter chip.\<close>

definition fitBucketClass :: "int \<Rightarrow> string" where
  "fitBucketClass score =
     (if score \<ge> 90 then ''great'' else if score \<ge> 75 then ''singable''
      else if score \<ge> 60 then ''challenging'' else ''low'')"

definition filteredRecommendations :: "App \<Rightarrow> SongRecommendation list" where
  "filteredRecommendations a =
     (if recoFilter a = ''all'' then visibleRecommendations a
      else filter (\<lambda>s. fitBucketClass (fit_score s) = recoFilter a) (visibleRecommendations a))"

subsection \<open>Sample values used in the examples\<close>

text \<open>A pitch estimate with a frequency and a confidence and no note name.\<close>

definition tone :: "real \<Rightarrow> real \<Rightarrow> PitchData" where
  "tone freq conf =
     \<lparr>frequency_hz = Some freq, confidence = conf, note_name = None, cents_offset = None\<rparr>"


text \<open>The capture state right after \<^verbatim>\<open>startRangeTest\<close> at time 0.\<close>

definition started :: Capture where
  "started = startRangeTest 0 initialCapture"

text \<open>The cells of \<^verbatim>\<open>App\<close> as \<^verbatim>\<open>useState\<close> and \<^verbatim>\<open>useRef\<close> initialise them.\<close>

definition initialApp :: App where
  "initialApp =
     \<lparr>status = ''Idle'', inputLevel = 0, rawInputLevel = 0, inputLevelRef = 0,
      rawInputLevelRef = 0, pitchData = nullPitch, pollTimerRef = None,
      pollErrorCountRef = 0, pollInFlightRef = False, capture = initialCapture,
      recommendations = [], showAllRecommendations = False, recoFilter = ''all'',
      invokeLog = []\<rparr>"

text \<open>A recommendation with a title, an artist, a score and its provenance.\<close>

definition song :: "string \<Rightarrow> string \<Rightarrow> int \<Rightarrow> bool \<Rightarrow> SongRecommendation" where
  "song t ar score imported =
     \<lparr>title = t, artist = ar, shift = 0, fit_score = score, is_imported = imported\<rparr>"

text \<open>The application after a test with the range 48--72 and the comfort zone 55--67.\<close>

definition tested :: App where
  "tested = initialApp\<lparr>capture := initialCapture\<lparr>rangeResult :=
      \<lparr>lowMidi = Some 48, highMidi = Some 72, comfortLowMidi = Some 55, comfortHighMidi = Some 67\<rparr>\<rparr>\<rparr>"

text \<open>
  The application after \<^verbatim>\<open>startStream\<close> has started the polling loop (lines 533--535), and a
  tick in which both calls are rejected.
\<close>

definition listening :: App where
  "listening = (startLevelPolling 1 initialApp)\<lparr>status := ''Audio input started''\<rparr>"

definition failedTick :: "real \<Rightarrow> Tick" where
  "failedTick now =
     \<lparr>tick_now = now, tick_level = Rejected ''stream closed'',
      tick_pitch = Rejected ''stream closed''\<rparr>"

section \<open>Properties\<close>

subsection \<open>Evaluation of the helpers\<close>

lemma started_eq:
  "started =
     \<lparr>testStage = CaptureLow, stageRef = CaptureLow,
      testInstruction = ''Sing your lowest comfortable note and hold for 1 second.'',
      stabilityMs = 0, sampleState = SampleIdle, awaitingResultStep = False,
      rangeResult = emptyRangeResult, fastPassRef = noFastPass, stageEnteredAtRef = 0,
      waitForSilenceBeforeHighRef = False, silenceStartRef = None,
      stableRef = emptyStability, lastGoodPitchRef = None, stableHistoryRef = [],
      lowMidiRef = None, highMidiRef = None\<rparr>"
  by (simp add: started_def startRangeTest_def resetRangeTest_def resetStability_def
      initialCapture_def)

lemma frequencyToMidi_440: "frequencyToMidi 440 = 69"
  by (simp add: frequencyToMidi_def)

lemma frequencyToMidi_880: "frequencyToMidi 880 = 81"
  by (simp add: frequencyToMidi_def)

lemma frequencyToMidi_220: "frequencyToMidi 220 = 57"
  by (simp add: frequencyToMidi_def log_divide)

lemma isValid_iff: "isValid level pitch \<longleftrightarrow> RMS_THRESHOLD < level \<and> hasFreq pitch"
  by (auto simp: isValid_def)

lemmas consts_eval = CONFIDENCE_THRESHOLD_def CONFIDENCE_PASS_THRESHOLD_def
  CONFIDENCE_PASS_MS_def RMS_THRESHOLD_def STABLE_REQUIRED_MS_def STABLE_NOTE_DELTA_def
  SILENCE_RESET_MS_def HIGH_STAGE_MIN_DELAY_MS_def HIGH_NOTE_MIN_SEMITONES_def

lemmas handler_eval = handlePitchSampleForRangeTest_def silenceGate_def isValid_def hasFreq_def
  confidenceOk_def invalidSample_def validSample_def stabilityWindow_def smoothMidi_def
  pushCapped_def completeStageWithMidi_def finishRangeTest_def resetStability_def median_def
  noFastPass_def emptyStability_def emptyRangeResult_def tone_def Let_def
  frequencyToMidi_440 frequencyToMidi_880 frequencyToMidi_220

subsection \<open>C1: the validity filter\<close>

text \<open>
  What the validity test decides. The code computes \<open>confidenceOk\<close> (confidence above
  \<open>CONFIDENCE_THRESHOLD\<close>, or a note name present) and then tests
  \<^verbatim>\<open>confidenceOk || hasFreq\<close> under \<^verbatim>\<open>hasFreq\<close>. For every sample handled in \<open>CaptureLow\<close> or
  \<open>CaptureHigh\<close>: the sample is valid if and only if its level exceeds \<open>RMS_THRESHOLD\<close> and
  a positive frequency is present; changing its confidence and note name changes nothing;
  an invalid sample takes the invalid branch and a valid one goes on to the fast-pass test
  and the window.
\<close>

lemma valid_iff_level_and_frequency:
  assumes "stageRef s = CaptureLow \<or> stageRef s = CaptureHigh"
  shows "(isValid level pitch \<longleftrightarrow> RMS_THRESHOLD < level \<and> hasFreq pitch)
       \<and> isValid level (pitch\<lparr>confidence := c, note_name := n\<rparr>) = isValid level pitch
       \<and> (\<not> (RMS_THRESHOLD < level \<and> hasFreq pitch) \<longrightarrow>
            handlePitchSampleForRangeTest timestamp level pitch s
              = invalidSample timestamp (silenceGate timestamp level s))
       \<and> (\<forall>freq. RMS_THRESHOLD < level \<and> frequency_hz pitch = Some freq \<and> 0 < freq \<longrightarrow>
            handlePitchSampleForRangeTest timestamp level pitch s
              = validSample (stageRef s) timestamp pitch freq (silenceGate timestamp level s))"
  using assms
  by (auto simp: isValid_def hasFreq_def handlePitchSampleForRangeTest_def Let_def
           split: option.splits)

text \<open>
  C1 does not hold of the code. The front end states the rule of C1 to the user (``Valid
  sample rule: confidence > 0.12, RMS > 0.001'', src/src/App.tsx line 734) and computes
  its confidence condition, but the disjunct \<^verbatim>\<open>|| hasFreq\<close> voids it. In a test just
  started, the estimate 440 Hz with confidence 0 and no note name, at level 0.5, fails
  \<open>confidenceOk\<close> and is classified valid all the same: the handler marks it valid and
  opens the window with the pitch 69, and a second such estimate 600 ms later records 69 as
  the low note and moves the test to the high stage.
\<close>

theorem low_confidence_sample_is_valid:
  "stageRef started = CaptureLow
   \<and> confidence (tone 440 0) < CONFIDENCE_THRESHOLD
   \<and> note_name (tone 440 0) = None
   \<and> \<not> confidenceOk (tone 440 0)
   \<and> isValid (1/2) (tone 440 0)
   \<and> sampleState (handlePitchSampleForRangeTest 0 (1/2) (tone 440 0) started) = SampleValid
   \<and> samples (stableRef (handlePitchSampleForRangeTest 0 (1/2) (tone 440 0) started)) = [69]
   \<and> lowMidiRef (feed started [(0, 1/2, tone 440 0), (600, 1/2, tone 440 0)]) = Some 69
   \<and> stageRef (feed started [(0, 1/2, tone 440 0), (600, 1/2, tone 440 0)]) = CaptureHigh"
  by (simp add: started_eq handler_eval consts_eval)

subsection \<open>C2: the comfort zone of a completed test\<close>

text \<open>
  What \<open>finishRangeTest\<close> stores once both notes are recorded, and when the comfort bounds
  it computes are ordered: exactly when the centre lies within 3 semitones of
  \<open>[low, high]\<close>. The centre is the median of \<open>stableHistoryRef\<close>, which holds smoothed
  samples of both stages and of abandoned windows, while a fast-pass records a raw pitch
  that never enters the history; nothing ties the centre to \<open>[low, high]\<close>.
\<close>

lemma finishRangeTest_comfort:
  assumes "lowMidiRef s = Some low" and "highMidiRef s = Some high"
  shows "stageRef (finishRangeTest s) = Done
       \<and> rangeResult (finishRangeTest s) =
           \<lparr>lowMidi = Some low, highMidi = Some high,
            comfortLowMidi = Some (max low ((if stableHistoryRef s = [] then (low + high) / 2
                                             else median (stableHistoryRef s)) - 3)),
            comfortHighMidi = Some (min high ((if stableHistoryRef s = [] then (low + high) / 2
                                               else median (stableHistoryRef s)) + 3))\<rparr>"
  using assms by (simp add: finishRangeTest_def Let_def)

lemma comfort_ordered_iff:
  "max low (center - 3) \<le> min high (center + 3)
     \<longleftrightarrow> low \<le> high \<and> low - 3 \<le> center \<and> center \<le> high + (3::real)"
  by auto

text \<open>
  C2 at a run the code can receive. In \<open>CaptureLow\<close> the estimator reports 880 Hz twice
  (an octave error) and then 220 Hz, all with confidence 0.9: the third sample fast-passes
  and records the low note 57, while the history holds the smoothed 81. In \<open>CaptureHigh\<close>
  two samples of 440 Hz, 250 ms apart, fast-pass and record the high note 69, which passes
  the margin guard. The test completes with comfort low 78 and comfort high 69: the comfort
  bounds are inverted and the comfort low lies above the recorded high note.
\<close>

theorem comfort_zone_inverted:
  "stageRef (feed started
      [(0, 1/2, tone 880 (9/10)), (100, 1/2, tone 880 (9/10)), (300, 1/2, tone 220 (9/10)),
       (500, 1/2, tone 440 (9/10)), (750, 1/2, tone 440 (9/10))]) = Done
   \<and> rangeResult (feed started
      [(0, 1/2, tone 880 (9/10)), (100, 1/2, tone 880 (9/10)), (300, 1/2, tone 220 (9/10)),
       (500, 1/2, tone 440 (9/10)), (750, 1/2, tone 440 (9/10))])
     = \<lparr>lowMidi = Some 57, highMidi = Some 69,
        comfortLowMidi = Some 78, comfortHighMidi = Some 69\<rparr>"
  by (simp add: started_eq handler_eval consts_eval)

subsection \<open>C4: the silence gate between the stages\<close>

text \<open>No part of the handler sets \<open>waitForSilenceBeforeHighRef\<close>: a clear gate stays clear.\<close>

lemma silenceGate_disarmed: "\<not> waitForSilenceBeforeHighRef s \<Longrightarrow> silenceGate t l s = s"
  by (simp add: silenceGate_def)

lemma completeStage_disarmed:
  "\<not> waitForSilenceBeforeHighRef s \<Longrightarrow> \<not> waitForSilenceBeforeHighRef (completeStageWithMidi st m t s)"
  by (simp add: completeStageWithMidi_def resetStability_def finishRangeTest_def Let_def
      split: option.splits)

lemma stabilityWindow_disarmed:
  "\<not> waitForSilenceBeforeHighRef s \<Longrightarrow> \<not> waitForSilenceBeforeHighRef (stabilityWindow st t f s)"
  by (simp add: stabilityWindow_def Let_def completeStage_disarmed)

lemma validSample_disarmed:
  "\<not> waitForSilenceBeforeHighRef s \<Longrightarrow> \<not> waitForSilenceBeforeHighRef (validSample st t p f s)"
  by (simp add: validSample_def Let_def completeStage_disarmed stabilityWindow_disarmed
      split: option.splits bool.splits)

lemma invalidSample_disarmed:
  "\<not> waitForSilenceBeforeHighRef s \<Longrightarrow> \<not> waitForSilenceBeforeHighRef (invalidSample t s)"
  by (simp add: invalidSample_def Let_def resetStability_def split: option.splits)

lemma handler_disarmed:
  "\<not> waitForSilenceBeforeHighRef s
   \<Longrightarrow> \<not> waitForSilenceBeforeHighRef (handlePitchSampleForRangeTest t l p s)"
  by (simp add: handlePitchSampleForRangeTest_def Let_def silenceGate_disarmed
      validSample_disarmed invalidSample_disarmed split: option.splits)

text \<open>
  C4, as the code has it. The transition from \<open>CaptureLow\<close> to \<open>CaptureHigh\<close> writes
  \<^verbatim>\<open>false\<close> to \<open>waitForSilenceBeforeHighRef\<close> and clears \<open>silenceStartRef\<close>: the gate is
  left clear, not armed. No step of the handler arms it. Were it armed in \<open>CaptureHigh\<close>,
  it would stay armed until a sample finds the level below 0.6 times \<open>RMS_THRESHOLD\<close> at
  least \<open>SILENCE_RESET_MS\<close> after the silence began, it would leave the stability window
  and the fast-pass cell alone, and it would not hold the sample back: the block has no
  \<^verbatim>\<open>return\<close>, so the sample goes through the validity test and the rest of the pipeline.
\<close>

theorem silence_gate_never_armed:
  "(stageRef (completeStageWithMidi CaptureLow lowNote timestamp s) = CaptureHigh
    \<and> \<not> waitForSilenceBeforeHighRef (completeStageWithMidi CaptureLow lowNote timestamp s)
    \<and> silenceStartRef (completeStageWithMidi CaptureLow lowNote timestamp s) = None)
   \<and> (\<not> waitForSilenceBeforeHighRef s \<longrightarrow>
        \<not> waitForSilenceBeforeHighRef (handlePitchSampleForRangeTest timestamp level pitch s))
   \<and> (stageRef s = CaptureHigh \<and> waitForSilenceBeforeHighRef s \<longrightarrow>
        (waitForSilenceBeforeHighRef (silenceGate timestamp level s)
           \<longleftrightarrow> \<not> (level < RMS_THRESHOLD * 0.6
                  \<and> SILENCE_RESET_MS
                      \<le> timestamp - (case silenceStartRef s of None \<Rightarrow> timestamp | Some t0 \<Rightarrow> t0)))
        \<and> stableRef (silenceGate timestamp level s) = stableRef s
        \<and> fastPassRef (silenceGate timestamp level s) = fastPassRef s
        \<and> handlePitchSampleForRangeTest timestamp level pitch s
            = (case frequency_hz pitch of
                 None \<Rightarrow> invalidSample timestamp (silenceGate timestamp level s)
               | Some freq \<Rightarrow>
                   if isValid level pitch
                   then validSample CaptureHigh timestamp pitch freq (silenceGate timestamp level s)
                   else invalidSample timestamp (silenceGate timestamp level s)))"
proof (intro conjI impI)
  show "stageRef (completeStageWithMidi CaptureLow lowNote timestamp s) = CaptureHigh"
    and "\<not> waitForSilenceBeforeHighRef (completeStageWithMidi CaptureLow lowNote timestamp s)"
    and "silenceStartRef (completeStageWithMidi CaptureLow lowNote timestamp s) = None"
    by (simp_all add: completeStageWithMidi_def Let_def)
next
  assume "\<not> waitForSilenceBeforeHighRef s"
  then show "\<not> waitForSilenceBeforeHighRef (handlePitchSampleForRangeTest timestamp level pitch s)"
    by (rule handler_disarmed)
next
  assume armed: "stageRef s = CaptureHigh \<and> waitForSilenceBeforeHighRef s"
  then show "waitForSilenceBeforeHighRef (silenceGate timestamp level s)
           \<longleftrightarrow> \<not> (level < RMS_THRESHOLD * 0.6
                  \<and> SILENCE_RESET_MS
                      \<le> timestamp - (case silenceStartRef s of None \<Rightarrow> timestamp | Some t0 \<Rightarrow> t0))"
    by (simp add: silenceGate_def Let_def)
  from armed show "stableRef (silenceGate timestamp level s) = stableRef s"
    by (simp add: silenceGate_def Let_def)
  from armed show "fastPassRef (silenceGate timestamp level s) = fastPassRef s"
    by (simp add: silenceGate_def Let_def)
  from armed show "handlePitchSampleForRangeTest timestamp level pitch s
            = (case frequency_hz pitch of
                 None \<Rightarrow> invalidSample timestamp (silenceGate timestamp level s)
               | Some freq \<Rightarrow>
                   if isValid level pitch
                   then validSample CaptureHigh timestamp pitch freq (silenceGate timestamp level s)
                   else invalidSample timestamp (silenceGate timestamp level s))"
    by (simp add: handlePitchSampleForRangeTest_def Let_def split: option.splits)
qed

text \<open>
  The theorem at the start state, whose gate is clear, and at a high-stage state whose gate
  has been set by hand: a loud 440 Hz sample leaves the gate armed and is processed.
\<close>

theorem silence_gate_never_armed_witness:
  "\<not> waitForSilenceBeforeHighRef started
   \<and> \<not> waitForSilenceBeforeHighRef (handlePitchSampleForRangeTest 0 (1/2) (tone 440 (9/10)) started)
   \<and> stageRef (started\<lparr>stageRef := CaptureHigh, waitForSilenceBeforeHighRef := True\<rparr>) = CaptureHigh
   \<and> waitForSilenceBeforeHighRef (started\<lparr>stageRef := CaptureHigh, waitForSilenceBeforeHighRef := True\<rparr>)
   \<and> waitForSilenceBeforeHighRef
        (silenceGate 0 (1/2) (started\<lparr>stageRef := CaptureHigh, waitForSilenceBeforeHighRef := True\<rparr>))
   \<and> handlePitchSampleForRangeTest 0 (1/2) (tone 440 (9/10))
        (started\<lparr>stageRef := CaptureHigh, waitForSilenceBeforeHighRef := True\<rparr>)
      = validSample CaptureHigh 0 (tone 440 (9/10)) 440
          (silenceGate 0 (1/2) (started\<lparr>stageRef := CaptureHigh, waitForSilenceBeforeHighRef := True\<rparr>))"
  using silence_gate_never_armed [where s = started and timestamp = 0 and level = "1/2"
          and pitch = "tone 440 (9/10)"]
        silence_gate_never_armed [where
          s = "started\<lparr>stageRef := CaptureHigh, waitForSilenceBeforeHighRef := True\<rparr>"
          and timestamp = 0 and level = "1/2" and pitch = "tone 440 (9/10)"]
  by (simp add: started_eq isValid_def hasFreq_def tone_def consts_eval)

text \<open>
  C4 fails as stated. After the low note is captured (fast-pass at 250 ms) the stage is
  \<open>CaptureHigh\<close> and the gate is clear. And with the gate set by hand in that state, a loud
  sample at 300 ms leaves the gate armed, yet it starts the stability window with its pitch
  and starts the fast-pass dwell.
\<close>

theorem gate_not_armed_and_not_blocking:
  "stageRef (feed started [(0, 1/2, tone 440 (9/10)), (250, 1/2, tone 440 (9/10))]) = CaptureHigh
   \<and> \<not> waitForSilenceBeforeHighRef
         (feed started [(0, 1/2, tone 440 (9/10)), (250, 1/2, tone 440 (9/10))])
   \<and> waitForSilenceBeforeHighRef
        (handlePitchSampleForRangeTest 300 (1/2) (tone 440 (9/10))
          ((feed started [(0, 1/2, tone 440 (9/10)), (250, 1/2, tone 440 (9/10))])
             \<lparr>waitForSilenceBeforeHighRef := True\<rparr>))
   \<and> stableRef
        (handlePitchSampleForRangeTest 300 (1/2) (tone 440 (9/10))
          ((feed started [(0, 1/2, tone 440 (9/10)), (250, 1/2, tone 440 (9/10))])
             \<lparr>waitForSilenceBeforeHighRef := True\<rparr>))
      = \<lparr>startAt = Some 300, lastValidAt = Some 300, samples = [69]\<rparr>
   \<and> fastPassRef
        (handlePitchSampleForRangeTest 300 (1/2) (tone 440 (9/10))
          ((feed started [(0, 1/2, tone 440 (9/10)), (250, 1/2, tone 440 (9/10))])
             \<lparr>waitForSilenceBeforeHighRef := True\<rparr>))
      = \<lparr>fp_stage = Some CaptureHigh, fp_startAt = Some 300\<rparr>"
  by (simp add: started_eq handler_eval consts_eval)

subsection \<open>Steps of the handler\<close>

text \<open>The gate block leaves the cells of the window, the dwell and the recorded notes alone.\<close>

lemma silenceGate_cells:
  "stableRef (silenceGate t l s) = stableRef s"
  "lastGoodPitchRef (silenceGate t l s) = lastGoodPitchRef s"
  "stableHistoryRef (silenceGate t l s) = stableHistoryRef s"
  "fastPassRef (silenceGate t l s) = fastPassRef s"
  "stageRef (silenceGate t l s) = stageRef s"
  "lowMidiRef (silenceGate t l s) = lowMidiRef s"
  "stageEnteredAtRef (silenceGate t l s) = stageEnteredAtRef s"
  by (simp_all add: silenceGate_def Let_def)

lemma completeStage_low:
  "lowMidiRef (completeStageWithMidi CaptureLow m t w) = Some m"
  "stageRef (completeStageWithMidi CaptureLow m t w) = CaptureHigh"
  by (simp_all add: completeStageWithMidi_def Let_def)

lemma completeStage_high:
  assumes "lowMidiRef w = Some low" and "low + HIGH_NOTE_MIN_SEMITONES \<le> m"
    and "HIGH_STAGE_MIN_DELAY_MS \<le> t - stageEnteredAtRef w"
  shows "highMidiRef (completeStageWithMidi CaptureHigh m t w) = Some m"
    and "stageRef (completeStageWithMidi CaptureHigh m t w) = Done"
  using assms
  by (simp_all add: completeStageWithMidi_def resetStability_def finishRangeTest_def Let_def)

lemma window_restart:
  assumes "samples (stableRef w) = []
           \<or> STABLE_NOTE_DELTA < \<bar>smoothMidi (lastGoodPitchRef w) (frequencyToMidi f) - median (samples (stableRef w))\<bar>"
  shows "stabilityWindow stage t f w =
           w\<lparr>sampleState := SampleValid,
             lastGoodPitchRef := Some (smoothMidi (lastGoodPitchRef w) (frequencyToMidi f)),
             stableRef := \<lparr>startAt = Some t, lastValidAt = Some t,
                            samples = [smoothMidi (lastGoodPitchRef w) (frequencyToMidi f)]\<rparr>,
             stabilityMs := 0\<rparr>"
  using assms by (auto simp: stabilityWindow_def Let_def)

lemma window_append:
  assumes "samples (stableRef w) \<noteq> []"
    and "\<bar>smoothMidi (lastGoodPitchRef w) (frequencyToMidi f) - median (samples (stableRef w))\<bar> \<le> STABLE_NOTE_DELTA"
  shows "stabilityWindow stage t f w =
           (let x = smoothMidi (lastGoodPitchRef w) (frequencyToMidi f);
                elapsed = (case startAt (stableRef w) of Some a \<Rightarrow> t - a | None \<Rightarrow> 0);
                kept = pushCapped (samples (stableRef w)) x;
                w' = w\<lparr>sampleState := SampleValid, lastGoodPitchRef := Some x,
                       stableRef := \<lparr>startAt = startAt (stableRef w), lastValidAt = Some t, samples = kept\<rparr>,
                       stabilityMs := elapsed,
                       stableHistoryRef := stableHistoryRef w @ [x]\<rparr>
            in if STABLE_REQUIRED_MS \<le> elapsed
               then completeStageWithMidi stage (median kept) t (w\<lparr>stableHistoryRef := stableHistoryRef w @ [x]\<rparr>)
               else w')"
proof -
  have "completeStageWithMidi stage m t
          (w\<lparr>sampleState := a, lastGoodPitchRef := b, stableRef := c,
             stableHistoryRef := h, stabilityMs := d\<rparr>)
        = completeStageWithMidi stage m t (w\<lparr>stableHistoryRef := h\<rparr>)" for m a b c d h
    by (simp add: completeStageWithMidi_def resetStability_def Let_def)
  then show ?thesis
  using assms by (simp add: stabilityWindow_def Let_def)
qed

text \<open>What the fast-pass test leaves to the window when it does not complete the stage.\<close>

lemma validSample_window:
  assumes "\<not> (CONFIDENCE_PASS_THRESHOLD \<le> confidence pitch \<and> fp_stage (fastPassRef g) = Some stage
             \<and> (case fp_startAt (fastPassRef g) of None \<Rightarrow> False
                | Some t0 \<Rightarrow> CONFIDENCE_PASS_MS \<le> t - t0))"
  shows "\<exists>fp. validSample stage t pitch f g = stabilityWindow stage t f (g\<lparr>fastPassRef := fp\<rparr>)"
proof -
  have same: "g = g\<lparr>fastPassRef := fastPassRef g\<rparr>" by simp
  show ?thesis
    using assms
    apply (simp add: validSample_def Let_def split: option.splits bool.splits)
    apply (intro conjI impI allI)
    by (blast | metis same)+
qed


text \<open>Where the fast-pass cell is written: every completion clears it, as does an invalid sample.\<close>

lemma completeStage_fastPass: "fastPassRef (completeStageWithMidi st m t w) = noFastPass"
  by (simp add: completeStageWithMidi_def resetStability_def finishRangeTest_def Let_def
      split: option.splits)

lemma stabilityWindow_fastPass:
  "fastPassRef (stabilityWindow st t f w) = fastPassRef w
   \<or> fastPassRef (stabilityWindow st t f w) = noFastPass"
  by (simp add: stabilityWindow_def Let_def completeStage_fastPass)

lemma invalidSample_fastPass: "fastPassRef (invalidSample t w) = noFastPass"
  by (simp add: invalidSample_def resetStability_def Let_def split: option.splits)

lemma handler_invalid:
  assumes "stageRef s = CaptureLow \<or> stageRef s = CaptureHigh" and "\<not> isValid level pitch"
  shows "handlePitchSampleForRangeTest t level pitch s = invalidSample t (silenceGate t level s)"
  using assms by (auto simp: handlePitchSampleForRangeTest_def Let_def split: option.splits)

lemma handler_valid:
  assumes "stageRef s = CaptureLow \<or> stageRef s = CaptureHigh" and "isValid level pitch"
    and "frequency_hz pitch = Some freq"
  shows "handlePitchSampleForRangeTest t level pitch s
           = validSample (stageRef s) t pitch freq (silenceGate t level s)"
  using assms by (auto simp: handlePitchSampleForRangeTest_def Let_def)

lemma isValid_frequency: "isValid level pitch \<Longrightarrow> \<exists>freq. frequency_hz pitch = Some freq"
  by (auto simp: isValid_def hasFreq_def split: option.splits)

lemma validSample_fires:
  assumes "CONFIDENCE_PASS_THRESHOLD \<le> confidence pitch"
    and "fastPassRef g = \<lparr>fp_stage = Some stage, fp_startAt = Some t0\<rparr>"
    and "CONFIDENCE_PASS_MS \<le> t - t0"
  shows "validSample stage t pitch freq g = completeStageWithMidi stage (frequencyToMidi freq) t g"
  using assms by (simp add: validSample_def Let_def)

lemma validSample_fastPass_running:
  assumes "fastPassRef g = \<lparr>fp_stage = Some stage, fp_startAt = Some t0\<rparr>"
  shows "fastPassRef (validSample stage t pitch freq g) = fastPassRef g
         \<or> fastPassRef (validSample stage t pitch freq g) = noFastPass"
  using assms stabilityWindow_fastPass [of stage t freq g]
    stabilityWindow_fastPass [of stage t freq "g\<lparr>fastPassRef := noFastPass\<rparr>"]
  by (auto simp: validSample_def Let_def completeStage_fastPass)

lemma validSample_cancels:
  assumes "confidence pitch < CONFIDENCE_PASS_THRESHOLD" and "fp_stage (fastPassRef g) = Some stage"
  shows "fastPassRef (validSample stage t pitch freq g) = noFastPass"
  using assms stabilityWindow_fastPass [of stage t freq "g\<lparr>fastPassRef := noFastPass\<rparr>"]
  by (auto simp: validSample_def Let_def)

lemma validSample_anchors:
  assumes "CONFIDENCE_PASS_THRESHOLD \<le> confidence pitch"
    and "\<not> (fp_stage (fastPassRef g) = Some stage \<and> fp_startAt (fastPassRef g) \<noteq> None)"
  shows "fastPassRef (validSample stage t pitch freq g) = \<lparr>fp_stage = Some stage, fp_startAt = Some t\<rparr>
         \<or> fastPassRef (validSample stage t pitch freq g) = noFastPass"
  using assms
    stabilityWindow_fastPass [of stage t freq
      "g\<lparr>fastPassRef := \<lparr>fp_stage = Some stage, fp_startAt = Some t\<rparr>\<rparr>"]
  by (auto simp: validSample_def Let_def split: option.splits bool.splits)

text \<open>A running dwell is either kept or cleared by the next sample, never moved.\<close>

lemma step_keeps_or_resets:
  assumes "stageRef s = CaptureLow \<or> stageRef s = CaptureHigh"
    and "fastPassRef s = \<lparr>fp_stage = Some (stageRef s), fp_startAt = Some t0\<rparr>"
  shows "fastPassRef (handlePitchSampleForRangeTest t level pitch s) = fastPassRef s
       \<or> fastPassRef (handlePitchSampleForRangeTest t level pitch s) = noFastPass"
proof (cases "isValid level pitch")
  case False
  have hi: "handlePitchSampleForRangeTest t level pitch s = invalidSample t (silenceGate t level s)"
    using assms(1) False by (rule handler_invalid)
  show ?thesis unfolding hi by (simp add: invalidSample_fastPass)
next
  case True
  then obtain freq where f: "frequency_hz pitch = Some freq" using isValid_frequency by blast
  have hv: "handlePitchSampleForRangeTest t level pitch s
              = validSample (stageRef s) t pitch freq (silenceGate t level s)"
    using assms(1) True f by (rule handler_valid)
  have g: "fastPassRef (silenceGate t level s)
             = \<lparr>fp_stage = Some (stageRef s), fp_startAt = Some t0\<rparr>"
    using assms(2) by (simp only: silenceGate_cells)
  from validSample_fastPass_running [OF g, of t pitch freq] show ?thesis
    unfolding hv by (simp only: silenceGate_cells)
qed

lemma feedStates_nonempty: "feedStates s xs \<noteq> []"
  by (cases xs) auto

lemma feedStates_head: "s \<in> set (feedStates s xs)"
  by (cases xs) auto

lemma feed_last: "feed s xs = last (feedStates s xs)"
  by (induction s xs rule: feed.induct) (simp_all add: feedStates_nonempty)

lemma dwell_survives:
  assumes "stage = CaptureLow \<or> stage = CaptureHigh"
    and "stageRef s = stage"
    and "fastPassRef s = \<lparr>fp_stage = Some stage, fp_startAt = Some t0\<rparr>"
    and "\<forall>u \<in> set (feedStates s mids). stageRef u = stage \<and> fastPassRef u \<noteq> noFastPass"
  shows "fastPassRef (feed s mids) = \<lparr>fp_stage = Some stage, fp_startAt = Some t0\<rparr>
         \<and> stageRef (feed s mids) = stage"
  using assms(2-4)
proof (induction s mids rule: feed.induct)
  case (1 s)
  then show ?case by simp
next
  case (2 s timestamp level pitch rest)
  let ?n = "handlePitchSampleForRangeTest timestamp level pitch s"
  have "?n \<in> set (feedStates s ((timestamp, level, pitch) # rest))"
    by (simp add: feedStates_head)
  with "2.prems"(3) have st: "stageRef ?n = stage" and nz: "fastPassRef ?n \<noteq> noFastPass"
    by blast+
  have "fastPassRef ?n = fastPassRef s \<or> fastPassRef ?n = noFastPass"
    by (rule step_keeps_or_resets [where ?t0.0 = t0])
       (use assms(1) "2.prems"(1,2) in \<open>simp_all only:\<close>)
  with nz have fp: "fastPassRef ?n = \<lparr>fp_stage = Some stage, fp_startAt = Some t0\<rparr>"
    using "2.prems"(2) by simp
  have rest: "\<forall>u \<in> set (feedStates ?n rest). stageRef u = stage \<and> fastPassRef u \<noteq> noFastPass"
    using "2.prems"(3) by simp
  from "2.IH" [OF st fp rest] show ?case by simp
qed

lemma completeStage_history:
  "stableHistoryRef (completeStageWithMidi st m t w) = stableHistoryRef w"
  by (simp add: completeStageWithMidi_def resetStability_def finishRangeTest_def Let_def
      split: option.splits)

subsection \<open>Runs on a clock that never goes back\<close>



lemma wellTimed_iff:
  "wellTimed now s \<longleftrightarrow>
     stageEnteredAtRef s \<le> now \<and> \<not> waitForSilenceBeforeHighRef s
     \<and> (\<forall>a. startAt (stableRef s) = Some a \<longrightarrow> stageEnteredAtRef s \<le> a)
     \<and> (\<forall>t0. fp_startAt (fastPassRef s) = Some t0 \<longrightarrow> stageEnteredAtRef s \<le> t0)
     \<and> (stageRef s = CaptureLow \<longrightarrow> highMidiRef s = None)
     \<and> (stageRef s = CaptureHigh \<longrightarrow> highMidiRef s = None \<and> lowMidiRef s \<noteq> None)"
  by (auto simp: wellTimed_def split: option.splits)

lemma wellTimed_later: "wellTimed now s \<Longrightarrow> now \<le> t \<Longrightarrow> wellTimed t s"
  by (auto simp: wellTimed_iff)

lemma startRangeTest_wellTimed: "wellTimed now (startRangeTest now s0)"
  by (simp add: wellTimed_iff startRangeTest_def resetRangeTest_def resetStability_def
      emptyStability_def noFastPass_def)

lemma completeStage_wellTimed:
  assumes "wellTimed now w" and "now \<le> t" and "stageRef w = st"
    and "st = CaptureLow \<or> st = CaptureHigh"
  shows "wellTimed t (completeStageWithMidi st m t w)"
  using assms
  by (cases "lowMidiRef w")
     (auto simp: wellTimed_iff completeStageWithMidi_def resetStability_def finishRangeTest_def
        emptyStability_def noFastPass_def Let_def)

lemma stabilityWindow_wellTimed:
  assumes "wellTimed now w" and "now \<le> t" and "stageRef w = st"
    and "st = CaptureLow \<or> st = CaptureHigh"
  shows "wellTimed t (stabilityWindow st t f w)"
proof -
  let ?x = "smoothMidi (lastGoodPitchRef w) (frequencyToMidi f)"
  show ?thesis
  proof (cases "samples (stableRef w) = []
           \<or> STABLE_NOTE_DELTA < \<bar>?x - median (samples (stableRef w))\<bar>")
    case True
    have "wellTimed t (w\<lparr>sampleState := SampleValid, lastGoodPitchRef := Some ?x,
             stableRef := \<lparr>startAt = Some t, lastValidAt = Some t, samples = [?x]\<rparr>,
             stabilityMs := 0\<rparr>)"
      using assms by (auto simp: wellTimed_iff split: option.splits)
    then show ?thesis
      by (simp only: window_restart [OF True])
  next
    case False
    let ?h = "w\<lparr>stableHistoryRef := stableHistoryRef w @ [?x]\<rparr>"
    have h: "wellTimed now ?h" and sh: "stageRef ?h = st"
      using assms by (simp_all add: wellTimed_iff)
    have c: "wellTimed t (completeStageWithMidi st m t ?h)" for m
      by (rule completeStage_wellTimed [OF h assms(2) sh assms(4)])
    from False show ?thesis
      using assms c
      by (subst window_append) (auto simp: wellTimed_iff Let_def split: option.splits)
  qed
qed

lemma invalidSample_wellTimed:
  assumes "wellTimed now w" and "now \<le> t"
  shows "wellTimed t (invalidSample t w)"
  using assms
  by (auto simp: wellTimed_iff invalidSample_def resetStability_def emptyStability_def
        noFastPass_def Let_def split: option.splits)

lemma validSample_wellTimed:
  assumes "wellTimed now w" and "now \<le> t" and "stageRef w = st"
    and "st = CaptureLow \<or> st = CaptureHigh"
  shows "wellTimed t (validSample st t p f w)"
proof -
  have fp: "wellTimed now (w\<lparr>fastPassRef := noFastPass\<rparr>)"
    and fp': "wellTimed t (w\<lparr>fastPassRef := \<lparr>fp_stage = Some st, fp_startAt = Some t\<rparr>\<rparr>)"
    using assms by (auto simp: wellTimed_iff noFastPass_def)
  note win = stabilityWindow_wellTimed [OF _ _ _ assms(4)]
  have a: "wellTimed t (stabilityWindow st t f w)"
    by (rule win [OF assms(1,2,3)])
  have b: "wellTimed t (stabilityWindow st t f (w\<lparr>fastPassRef := noFastPass\<rparr>))"
    by (rule win [OF fp assms(2)]) (simp add: assms(3))
  have c: "wellTimed t (stabilityWindow st t f
             (w\<lparr>fastPassRef := \<lparr>fp_stage = Some st, fp_startAt = Some t\<rparr>\<rparr>))"
    by (rule win [OF fp' order_refl]) (simp add: assms(3))
  have d: "wellTimed t (completeStageWithMidi st m t w)" for m
    by (rule completeStage_wellTimed [OF assms])
  show ?thesis
    using a b c d by (simp add: validSample_def Let_def split: option.splits bool.splits)
qed

lemma handler_wellTimed:
  assumes "wellTimed now s" and "now \<le> t"
  shows "wellTimed t (handlePitchSampleForRangeTest t l p s)"
proof (cases "stageRef s = CaptureLow \<or> stageRef s = CaptureHigh")
  case False
  then have "handlePitchSampleForRangeTest t l p s = s"
    by (simp add: handlePitchSampleForRangeTest_def Let_def)
  with assms show ?thesis by (simp add: wellTimed_later)
next
  case True
  have g: "silenceGate t l s = s"
    using assms(1) by (simp add: wellTimed_iff silenceGate_disarmed)
  show ?thesis
  proof (cases "isValid l p")
    case False
    with True show ?thesis
      using assms by (simp add: handler_invalid g invalidSample_wellTimed)
  next
    case valid: True
    then obtain f where f: "frequency_hz p = Some f" using isValid_frequency by blast
    have "handlePitchSampleForRangeTest t l p s = validSample (stageRef s) t p f s"
      using handler_valid [OF True valid f, of t] by (simp add: g)
    then show ?thesis
      using validSample_wellTimed [OF assms refl True] by simp
  qed
qed

lemma feed_append: "feed s (xs @ ys) = feed (feed s xs) ys"
  by (induction s xs rule: feed.induct) simp_all

lemma clockFrom_append:
  "clockFrom now (xs @ ys) \<Longrightarrow> clockFrom now xs"
  by (induction now xs rule: clockFrom.induct) auto

lemma feed_wellTimed:
  "wellTimed now s \<Longrightarrow> clockFrom now (stream @ [(t, l, p)]) \<Longrightarrow> wellTimed t (feed s stream)"
proof (induction s stream arbitrary: now rule: feed.induct)
  case (1 s)
  then show ?case by (simp add: wellTimed_later)
next
  case (2 s t1 l1 p1 rest)
  from "2.prems"(2) have le: "now \<le> t1" and rest: "clockFrom t1 (rest @ [(t, l, p)])"
    by simp_all
  have "wellTimed t1 (handlePitchSampleForRangeTest t1 l1 p1 s)"
    by (rule handler_wellTimed [OF "2.prems"(1) le])
  from "2.IH" [OF this rest] show ?case by simp
qed

text \<open>A test in progress, taken to the moment its next sample arrives.\<close>

lemma run_wellTimed:
  "clockFrom now (stream @ [(t, l, p)]) \<Longrightarrow> wellTimed t (feed (startRangeTest now s0) stream)"
  by (rule feed_wellTimed [OF startRangeTest_wellTimed])

subsection \<open>C3: a high note too close to the low note\<close>

text \<open>
  What \<open>completeStageWithMidi\<close> does in the high stage once 200 ms have passed since the
  stage was entered and the candidate is below the low note plus 0.5: it has reset the
  window, the smoothing memory, the stability display and the fast-pass cell, and it
  writes the retry prompt.
\<close>

lemma completeStage_rejects:
  assumes "lowMidiRef w = Some low" and "m < low + HIGH_NOTE_MIN_SEMITONES"
    and "HIGH_STAGE_MIN_DELAY_MS \<le> t - stageEnteredAtRef w"
  shows "completeStageWithMidi CaptureHigh m t w =
           w\<lparr>stableRef := emptyStability, lastGoodPitchRef := None, stabilityMs := 0,
             sampleState := SampleIdle, fastPassRef := noFastPass,
             testInstruction :=
               ''Detected pitch is too close to low note. Please sing higher and hold.''\<rparr>"
  using assms by (simp add: completeStageWithMidi_def resetStability_def Let_def)

text \<open>In a test in progress the high stage has been entered at least 200 ms before any attempt.\<close>

lemma fastPass_attempt_delay:
  assumes "wellTimed t u" and "fp_startAt (fastPassRef u) = Some t0"
    and "CONFIDENCE_PASS_MS \<le> t - t0"
  shows "HIGH_STAGE_MIN_DELAY_MS \<le> t - stageEnteredAtRef u"
  using assms by (simp add: wellTimed_iff consts_eval)

lemma hold_attempt_delay:
  assumes "wellTimed t u" and "startAt (stableRef u) = Some a"
    and "STABLE_REQUIRED_MS \<le> t - a"
  shows "HIGH_STAGE_MIN_DELAY_MS \<le> t - stageEnteredAtRef u"
  using assms by (simp add: wellTimed_iff consts_eval)

text \<open>
  C3, as the code has it. Take a range test started by \<open>startRangeTest\<close> whose samples carry
  timestamps that never decrease, let \<open>u\<close> be its state in the high stage with the low note
  \<open>low\<close>, and let a valid sample arrive. A fast-pass attempt (confidence at least 0.55 and a
  dwell of the high stage at least 250 ms old) has the sample's raw pitch as its candidate;
  an attempt by stability hold (no fast-pass on this sample, the smoothed pitch \<open>x\<close> within
  2 semitones of the median of the non-empty window, and an anchor at least 600 ms old) has
  the median of the window with \<open>x\<close> pushed as its candidate. When the candidate is strictly
  less than \<open>low + 0.5\<close> the attempt is rejected: the stage stays \<open>CaptureHigh\<close>, no high note
  is recorded, the \<open>RangeResult\<close> is as before, and the instruction becomes the retry
  prompt. The state after the sample is the state before it with the window, the smoothing
  memory, the stability display and the fast-pass cell reset and the prompt written; an
  attempt by stability hold has also appended \<open>x\<close> to the stable history. Every other cell
  is unchanged.
\<close>

theorem high_stage_rejection:
  assumes "u = feed (startRangeTest now s0) stream"
    and "clockFrom now (stream @ [(timestamp, level, pitch)])"
    and "stageRef u = CaptureHigh" and "lowMidiRef u = Some low"
    and "isValid level pitch" and "frequency_hz pitch = Some freq"
  shows "let s' = handlePitchSampleForRangeTest timestamp level pitch u;
             x = smoothMidi (lastGoodPitchRef u) (frequencyToMidi freq);
             buf = samples (stableRef u);
             fastPass = (CONFIDENCE_PASS_THRESHOLD \<le> confidence pitch
                         \<and> fp_stage (fastPassRef u) = Some CaptureHigh
                         \<and> (case fp_startAt (fastPassRef u) of None \<Rightarrow> False
                            | Some t0 \<Rightarrow> CONFIDENCE_PASS_MS \<le> timestamp - t0));
             hold = (\<not> fastPass \<and> buf \<noteq> [] \<and> \<bar>x - median buf\<bar> \<le> STABLE_NOTE_DELTA
                     \<and> (case startAt (stableRef u) of None \<Rightarrow> False
                        | Some a \<Rightarrow> STABLE_REQUIRED_MS \<le> timestamp - a));
             cleared = u\<lparr>stableRef := emptyStability, lastGoodPitchRef := None,
                         stabilityMs := 0, sampleState := SampleIdle, fastPassRef := noFastPass,
                         testInstruction :=
                           ''Detected pitch is too close to low note. Please sing higher and hold.''\<rparr>
         in (fastPass \<and> frequencyToMidi freq < low + HIGH_NOTE_MIN_SEMITONES \<longrightarrow>
               s' = cleared
               \<and> stageRef s' = CaptureHigh \<and> highMidiRef s' = None
               \<and> rangeResult s' = rangeResult u)
          \<and> (hold \<and> median (pushCapped buf x) < low + HIGH_NOTE_MIN_SEMITONES \<longrightarrow>
               s' = cleared\<lparr>stableHistoryRef := stableHistoryRef u @ [x]\<rparr>
               \<and> stageRef s' = CaptureHigh \<and> highMidiRef s' = None
               \<and> rangeResult s' = rangeResult u)"
proof -
  let ?x = "smoothMidi (lastGoodPitchRef u) (frequencyToMidi freq)"
  let ?buf = "samples (stableRef u)"
  let ?retry = "''Detected pitch is too close to low note. Please sing higher and hold.''"
  let ?cleared = "u\<lparr>stableRef := emptyStability, lastGoodPitchRef := None,
                    stabilityMs := 0, sampleState := SampleIdle, fastPassRef := noFastPass,
                    testInstruction := ?retry\<rparr>"
  let ?s' = "handlePitchSampleForRangeTest timestamp level pitch u"
  have wt: "wellTimed timestamp u"
    unfolding assms(1) by (rule run_wellTimed [OF assms(2)])
  then have gate: "silenceGate timestamp level u = u" and nohigh: "highMidiRef u = None"
    using assms(3) by (simp_all add: wellTimed_iff silenceGate_disarmed)
  have hv: "?s' = validSample CaptureHigh timestamp pitch freq u"
    using handler_valid [of u level pitch freq timestamp] assms(3,5,6) by (simp add: gate)
  have fast: "?s' = ?cleared"
    if fp: "CONFIDENCE_PASS_THRESHOLD \<le> confidence pitch
            \<and> fp_stage (fastPassRef u) = Some CaptureHigh
            \<and> (case fp_startAt (fastPassRef u) of None \<Rightarrow> False
               | Some t0 \<Rightarrow> CONFIDENCE_PASS_MS \<le> timestamp - t0)"
      and close: "frequencyToMidi freq < low + HIGH_NOTE_MIN_SEMITONES"
  proof -
    from fp obtain t0 where t0: "fp_startAt (fastPassRef u) = Some t0"
      and old: "CONFIDENCE_PASS_MS \<le> timestamp - t0"
      by (auto split: option.splits)
    from fp t0 have cell: "fastPassRef u = \<lparr>fp_stage = Some CaptureHigh, fp_startAt = Some t0\<rparr>"
      by simp
    have "?s' = completeStageWithMidi CaptureHigh (frequencyToMidi freq) timestamp u"
      unfolding hv using fp cell old by (intro validSample_fires) simp_all
    also have "\<dots> = ?cleared"
      by (rule completeStage_rejects [OF assms(4) close fastPass_attempt_delay [OF wt t0 old]])
    finally show ?thesis .
  qed
  have held: "?s' = ?cleared\<lparr>stableHistoryRef := stableHistoryRef u @ [?x]\<rparr>"
    if nofp: "\<not> (CONFIDENCE_PASS_THRESHOLD \<le> confidence pitch
            \<and> fp_stage (fastPassRef u) = Some CaptureHigh
            \<and> (case fp_startAt (fastPassRef u) of None \<Rightarrow> False
               | Some t0 \<Rightarrow> CONFIDENCE_PASS_MS \<le> timestamp - t0))"
      and buf: "?buf \<noteq> []" and near: "\<bar>?x - median ?buf\<bar> \<le> STABLE_NOTE_DELTA"
      and anchor: "case startAt (stableRef u) of None \<Rightarrow> False
                   | Some a \<Rightarrow> STABLE_REQUIRED_MS \<le> timestamp - a"
      and close: "median (pushCapped ?buf ?x) < low + HIGH_NOTE_MIN_SEMITONES"
  proof -
    from anchor obtain a where a: "startAt (stableRef u) = Some a"
      and old: "STABLE_REQUIRED_MS \<le> timestamp - a"
      by (auto split: option.splits)
    obtain fp where w: "?s' = stabilityWindow CaptureHigh timestamp freq (u\<lparr>fastPassRef := fp\<rparr>)"
      using validSample_window [of pitch u CaptureHigh timestamp freq] nofp hv by auto
    let ?w = "u\<lparr>fastPassRef := fp\<rparr>"
    have "stabilityWindow CaptureHigh timestamp freq ?w
            = completeStageWithMidi CaptureHigh (median (pushCapped ?buf ?x)) timestamp
                (?w\<lparr>stableHistoryRef := stableHistoryRef u @ [?x]\<rparr>)"
      using buf near a old by (subst window_append) (simp_all add: Let_def)
    also have "\<dots> = (?w\<lparr>stableHistoryRef := stableHistoryRef u @ [?x]\<rparr>)
                       \<lparr>stableRef := emptyStability, lastGoodPitchRef := None, stabilityMs := 0,
                        sampleState := SampleIdle, fastPassRef := noFastPass,
                        testInstruction := ?retry\<rparr>"
      by (rule completeStage_rejects [where low = low])
         (use assms(4) close hold_attempt_delay [OF wt a old] in simp_all)
    also have "\<dots> = ?cleared\<lparr>stableHistoryRef := stableHistoryRef u @ [?x]\<rparr>"
      by simp
    finally show ?thesis unfolding w .
  qed
  have after: "stageRef ?cleared = CaptureHigh" "highMidiRef ?cleared = None"
    "rangeResult ?cleared = rangeResult u"
    "stageRef (?cleared\<lparr>stableHistoryRef := h\<rparr>) = CaptureHigh"
    "highMidiRef (?cleared\<lparr>stableHistoryRef := h\<rparr>) = None"
    "rangeResult (?cleared\<lparr>stableHistoryRef := h\<rparr>) = rangeResult u" for h
    using assms(3) nohigh by simp_all
  show ?thesis
    unfolding Let_def
  proof (intro conjI impI)
    assume h: "(CONFIDENCE_PASS_THRESHOLD \<le> confidence pitch
            \<and> fp_stage (fastPassRef u) = Some CaptureHigh
            \<and> (case fp_startAt (fastPassRef u) of None \<Rightarrow> False
               | Some t0 \<Rightarrow> CONFIDENCE_PASS_MS \<le> timestamp - t0))
          \<and> frequencyToMidi freq < low + HIGH_NOTE_MIN_SEMITONES"
    then have eq: "?s' = ?cleared" using fast by blast
    show "?s' = ?cleared" by (rule eq)
    show "stageRef ?s' = CaptureHigh" "highMidiRef ?s' = None" "rangeResult ?s' = rangeResult u"
      unfolding eq by (rule after)+
  next
    assume h: "(\<not> (CONFIDENCE_PASS_THRESHOLD \<le> confidence pitch
            \<and> fp_stage (fastPassRef u) = Some CaptureHigh
            \<and> (case fp_startAt (fastPassRef u) of None \<Rightarrow> False
               | Some t0 \<Rightarrow> CONFIDENCE_PASS_MS \<le> timestamp - t0))
          \<and> ?buf \<noteq> [] \<and> \<bar>?x - median ?buf\<bar> \<le> STABLE_NOTE_DELTA
          \<and> (case startAt (stableRef u) of None \<Rightarrow> False
             | Some a \<Rightarrow> STABLE_REQUIRED_MS \<le> timestamp - a))
          \<and> median (pushCapped ?buf ?x) < low + HIGH_NOTE_MIN_SEMITONES"
    then have eq: "?s' = ?cleared\<lparr>stableHistoryRef := stableHistoryRef u @ [?x]\<rparr>"
      using held by blast
    show "?s' = ?cleared\<lparr>stableHistoryRef := stableHistoryRef u @ [?x]\<rparr>" by (rule eq)
    show "stageRef ?s' = CaptureHigh" "highMidiRef ?s' = None" "rangeResult ?s' = rangeResult u"
      unfolding eq by (rule after)+
  qed
qed

text \<open>
  The theorem at two tests with the low note 69 fast-passed at 250 ms. In the first a dwell
  of the high stage runs since 300 ms over the window \<open>[69, 69]\<close>, and the confident sample at
  550 ms attempts 69 by fast-pass. In the second a window is anchored at 700 ms, and the
  sample of confidence 0.3 at 1300 ms attempts the median 69 by hold. Both attempts are
  rejected with the retry prompt; the second has appended 69 to the history.
\<close>

theorem high_stage_rejection_witness:
  "clockFrom 0 ([(0, 1/2, tone 440 (9/10)), (250, 1/2, tone 440 (9/10)),
                 (300, 1/2, tone 440 (9/10)), (400, 1/2, tone 440 (9/10))]
                @ [(550, 1/2, tone 440 (9/10))])
   \<and> stageRef (feed started [(0, 1/2, tone 440 (9/10)), (250, 1/2, tone 440 (9/10)),
                 (300, 1/2, tone 440 (9/10)), (400, 1/2, tone 440 (9/10))]) = CaptureHigh
   \<and> lowMidiRef (feed started [(0, 1/2, tone 440 (9/10)), (250, 1/2, tone 440 (9/10)),
                 (300, 1/2, tone 440 (9/10)), (400, 1/2, tone 440 (9/10))]) = Some 69
   \<and> isValid (1/2) (tone 440 (9/10))
   \<and> handlePitchSampleForRangeTest 550 (1/2) (tone 440 (9/10))
        (feed started [(0, 1/2, tone 440 (9/10)), (250, 1/2, tone 440 (9/10)),
                 (300, 1/2, tone 440 (9/10)), (400, 1/2, tone 440 (9/10))])
      = (feed started [(0, 1/2, tone 440 (9/10)), (250, 1/2, tone 440 (9/10)),
                 (300, 1/2, tone 440 (9/10)), (400, 1/2, tone 440 (9/10))])
          \<lparr>stableRef := emptyStability, lastGoodPitchRef := None,
           stabilityMs := 0, sampleState := SampleIdle, fastPassRef := noFastPass,
           testInstruction :=
             ''Detected pitch is too close to low note. Please sing higher and hold.''\<rparr>
   \<and> stableHistoryRef (feed started [(0, 1/2, tone 440 (9/10)), (250, 1/2, tone 440 (9/10)),
                 (700, 1/2, tone 440 (3/10))]) = []
   \<and> handlePitchSampleForRangeTest 1300 (1/2) (tone 440 (3/10))
        (feed started [(0, 1/2, tone 440 (9/10)), (250, 1/2, tone 440 (9/10)),
                 (700, 1/2, tone 440 (3/10))])
      = (feed started [(0, 1/2, tone 440 (9/10)), (250, 1/2, tone 440 (9/10)),
                 (700, 1/2, tone 440 (3/10))])
          \<lparr>stableRef := emptyStability, lastGoodPitchRef := None,
           stabilityMs := 0, sampleState := SampleIdle, fastPassRef := noFastPass,
           testInstruction :=
             ''Detected pitch is too close to low note. Please sing higher and hold.'',
           stableHistoryRef := [69]\<rparr>"
proof -
  let ?p = "[(0, 1/2, tone 440 (9/10)), (250, 1/2, tone 440 (9/10)),
             (300, 1/2, tone 440 (9/10)), (400, 1/2, tone 440 (9/10))]"
  let ?q = "[(0, 1/2, tone 440 (9/10)), (250, 1/2, tone 440 (9/10)),
             (700, 1/2, tone 440 (3/10))]"
  have run: "feed started xs = feed (startRangeTest 0 initialCapture) xs" for xs
    by (simp only: started_def)
  have clock: "clockFrom 0 (?p @ [(550, 1/2, tone 440 (9/10))])"
    and clock': "clockFrom 0 (?q @ [(1300, 1/2, tone 440 (3/10))])"
    by simp_all
  have up: "stageRef (feed started ?p) = CaptureHigh" "lowMidiRef (feed started ?p) = Some 69"
    "fastPassRef (feed started ?p) = \<lparr>fp_stage = Some CaptureHigh, fp_startAt = Some 300\<rparr>"
    by (simp_all add: started_eq handler_eval consts_eval)
  have uq: "stageRef (feed started ?q) = CaptureHigh" "lowMidiRef (feed started ?q) = Some 69"
    "fastPassRef (feed started ?q) = noFastPass"
    "stableRef (feed started ?q) = \<lparr>startAt = Some 700, lastValidAt = Some 700, samples = [69]\<rparr>"
    "lastGoodPitchRef (feed started ?q) = Some 69"
    "stableHistoryRef (feed started ?q) = []"
    by (simp_all add: started_eq handler_eval consts_eval)
  have valid: "isValid (1/2) (tone 440 (9/10))" "isValid (1/2) (tone 440 (3/10))"
    and freq: "frequency_hz (tone 440 c) = Some 440" for c
    by (simp_all add: isValid_def hasFreq_def tone_def consts_eval)
  note fast = high_stage_rejection [OF run clock up(1,2) valid(1) freq, unfolded Let_def,
      THEN conjunct1, rule_format, THEN conjunct1]
  note held = high_stage_rejection [OF run clock' uq(1,2) valid(2) freq, unfolded Let_def,
      THEN conjunct2, rule_format, THEN conjunct1]
  have a: "handlePitchSampleForRangeTest 550 (1/2) (tone 440 (9/10)) (feed started ?p)
      = (feed started ?p)
          \<lparr>stableRef := emptyStability, lastGoodPitchRef := None,
           stabilityMs := 0, sampleState := SampleIdle, fastPassRef := noFastPass,
           testInstruction :=
             ''Detected pitch is too close to low note. Please sing higher and hold.''\<rparr>"
    by (rule fast) (simp add: started_eq handler_eval consts_eval)
  have "handlePitchSampleForRangeTest 1300 (1/2) (tone 440 (3/10)) (feed started ?q)
      = (feed started ?q)
          \<lparr>stableRef := emptyStability, lastGoodPitchRef := None,
           stabilityMs := 0, sampleState := SampleIdle, fastPassRef := noFastPass,
           testInstruction :=
             ''Detected pitch is too close to low note. Please sing higher and hold.'',
           stableHistoryRef := stableHistoryRef (feed started ?q)
              @ [smoothMidi (lastGoodPitchRef (feed started ?q)) (frequencyToMidi 440)]\<rparr>"
    by (rule held) (simp add: started_eq handler_eval consts_eval)
  then have b: "handlePitchSampleForRangeTest 1300 (1/2) (tone 440 (3/10)) (feed started ?q)
      = (feed started ?q)
          \<lparr>stableRef := emptyStability, lastGoodPitchRef := None,
           stabilityMs := 0, sampleState := SampleIdle, fastPassRef := noFastPass,
           testInstruction :=
             ''Detected pitch is too close to low note. Please sing higher and hold.'',
           stableHistoryRef := [69]\<rparr>"
    unfolding uq frequencyToMidi_440 by (simp add: smoothMidi_def)
  show ?thesis
    by (intro conjI clock up(1,2) valid(1) a uq(6) b)
qed

text \<open>
  C3 fails as stated. After four samples the high stage holds the low note 69, the window
  \<open>[69, 69]\<close> and a fast-pass dwell started at 300 ms; the sample at 550 ms fast-passes with
  the candidate 69, below 69.5: the attempt is rejected and the retry prompt is shown, but
  the window and the dwell are gone. And a rejected attempt by hold (window anchored at
  700 ms, sample at 1300 ms) leaves the window empty and the history one element longer.
  The rest of the capture state is not left unchanged.
\<close>

theorem rejection_resets_window_and_dwell:
  "samples (stableRef (feed started
      [(0, 1/2, tone 440 (9/10)), (250, 1/2, tone 440 (9/10)), (300, 1/2, tone 440 (9/10)),
       (400, 1/2, tone 440 (9/10))])) = [69, 69]
   \<and> fastPassRef (feed started
      [(0, 1/2, tone 440 (9/10)), (250, 1/2, tone 440 (9/10)), (300, 1/2, tone 440 (9/10)),
       (400, 1/2, tone 440 (9/10))]) = \<lparr>fp_stage = Some CaptureHigh, fp_startAt = Some 300\<rparr>
   \<and> lowMidiRef (feed started
      [(0, 1/2, tone 440 (9/10)), (250, 1/2, tone 440 (9/10)), (300, 1/2, tone 440 (9/10)),
       (400, 1/2, tone 440 (9/10))]) = Some 69
   \<and> frequencyToMidi 440 < 69 + HIGH_NOTE_MIN_SEMITONES
   \<and> stageRef (feed started
      [(0, 1/2, tone 440 (9/10)), (250, 1/2, tone 440 (9/10)), (300, 1/2, tone 440 (9/10)),
       (400, 1/2, tone 440 (9/10)), (550, 1/2, tone 440 (9/10))]) = CaptureHigh
   \<and> testInstruction (feed started
      [(0, 1/2, tone 440 (9/10)), (250, 1/2, tone 440 (9/10)), (300, 1/2, tone 440 (9/10)),
       (400, 1/2, tone 440 (9/10)), (550, 1/2, tone 440 (9/10))])
       = ''Detected pitch is too close to low note. Please sing higher and hold.''
   \<and> samples (stableRef (feed started
      [(0, 1/2, tone 440 (9/10)), (250, 1/2, tone 440 (9/10)), (300, 1/2, tone 440 (9/10)),
       (400, 1/2, tone 440 (9/10)), (550, 1/2, tone 440 (9/10))])) = []
   \<and> fastPassRef (feed started
      [(0, 1/2, tone 440 (9/10)), (250, 1/2, tone 440 (9/10)), (300, 1/2, tone 440 (9/10)),
       (400, 1/2, tone 440 (9/10)), (550, 1/2, tone 440 (9/10))]) = noFastPass
   \<and> samples (stableRef (feed started
      [(0, 1/2, tone 440 (9/10)), (250, 1/2, tone 440 (9/10)), (700, 1/2, tone 440 (3/10))])) = [69]
   \<and> stableHistoryRef (feed started
      [(0, 1/2, tone 440 (9/10)), (250, 1/2, tone 440 (9/10)), (700, 1/2, tone 440 (3/10))]) = []
   \<and> stageRef (feed started
      [(0, 1/2, tone 440 (9/10)), (250, 1/2, tone 440 (9/10)), (700, 1/2, tone 440 (3/10)),
       (1300, 1/2, tone 440 (3/10))]) = CaptureHigh
   \<and> testInstruction (feed started
      [(0, 1/2, tone 440 (9/10)), (250, 1/2, tone 440 (9/10)), (700, 1/2, tone 440 (3/10)),
       (1300, 1/2, tone 440 (3/10))])
       = ''Detected pitch is too close to low note. Please sing higher and hold.''
   \<and> samples (stableRef (feed started
      [(0, 1/2, tone 440 (9/10)), (250, 1/2, tone 440 (9/10)), (700, 1/2, tone 440 (3/10)),
       (1300, 1/2, tone 440 (3/10))])) = []
   \<and> stableHistoryRef (feed started
      [(0, 1/2, tone 440 (9/10)), (250, 1/2, tone 440 (9/10)), (700, 1/2, tone 440 (3/10)),
       (1300, 1/2, tone 440 (3/10))]) = [69]"
  by (simp add: started_eq handler_eval consts_eval)

subsection \<open>C5: the stability window\<close>








subsection \<open>C6: the fast-pass shortcut\<close>

text \<open>
  C6, as the code has it. Take a range test started by \<open>startRangeTest\<close> whose samples carry
  timestamps that never decrease, and let \<open>s\<close> be its state in \<open>CaptureLow\<close> or
  \<open>CaptureHigh\<close>. Let a dwell be running since \<open>t0\<close>: the fast-pass cell holds the current
  stage and \<open>t0\<close>, the timestamp of the first sample of the run with confidence at least
  \<open>CONFIDENCE_PASS_THRESHOLD\<close> (0.55). Let the samples \<open>mids\<close> follow within that stage and
  with no reset of the cell. Then a valid sample with confidence at least 0.55 that arrives
  at least \<open>CONFIDENCE_PASS_MS\<close> (250 ms) after \<open>t0\<close> calls \<open>completeStageWithMidi\<close> at once
  with its raw pitch \<open>frequencyToMidi freq\<close>; it enters neither the window nor the history.
  In \<open>CaptureLow\<close> the raw pitch is recorded as the low note and the stage becomes
  \<open>CaptureHigh\<close>. In \<open>CaptureHigh\<close> there is a low note: when the raw pitch is at least the
  low note plus 0.5 it is recorded as the high note and the stage becomes \<open>Done\<close>; when it
  is below, the stage does not complete: nothing is recorded, the stage stays
  \<open>CaptureHigh\<close>, the dwell is cleared and the retry prompt is shown. An invalid sample
  clears the cell; a valid sample with confidence below 0.55 clears a dwell of the current
  stage; and a valid sample with confidence at least 0.55 that finds no dwell running
  starts one at its own timestamp (unless the window completes the stage on that sample,
  which clears the cell).
\<close>

theorem fast_pass_completes_and_cancels:
  assumes "s = feed (startRangeTest now s0) pre"
    and "clockFrom now (pre @ mids @ [(timestamp, level, pitch)])"
    and "stageRef s = CaptureLow \<or> stageRef s = CaptureHigh"
  shows "(fastPassRef s = \<lparr>fp_stage = Some (stageRef s), fp_startAt = Some t0\<rparr>
          \<and> (\<forall>u \<in> set (feedStates s mids). stageRef u = stageRef s \<and> fastPassRef u \<noteq> noFastPass)
          \<and> isValid level pitch \<and> frequency_hz pitch = Some freq
          \<and> CONFIDENCE_PASS_THRESHOLD \<le> confidence pitch
          \<and> CONFIDENCE_PASS_MS \<le> timestamp - t0 \<longrightarrow>
          (let u = feed s mids;
               s' = handlePitchSampleForRangeTest timestamp level pitch u
           in s' = completeStageWithMidi (stageRef s) (frequencyToMidi freq) timestamp u
              \<and> stableHistoryRef s' = stableHistoryRef u
              \<and> (stageRef s = CaptureLow \<longrightarrow>
                    lowMidiRef s' = Some (frequencyToMidi freq) \<and> stageRef s' = CaptureHigh)
              \<and> (stageRef s = CaptureHigh \<longrightarrow>
                    (\<exists>low. lowMidiRef u = Some low
                       \<and> (low + HIGH_NOTE_MIN_SEMITONES \<le> frequencyToMidi freq \<longrightarrow>
                            highMidiRef s' = Some (frequencyToMidi freq) \<and> stageRef s' = Done)
                       \<and> (frequencyToMidi freq < low + HIGH_NOTE_MIN_SEMITONES \<longrightarrow>
                            highMidiRef s' = None \<and> stageRef s' = CaptureHigh
                            \<and> fastPassRef s' = noFastPass
                            \<and> testInstruction s' =
                                ''Detected pitch is too close to low note. Please sing higher and hold.'')))))
       \<and> (\<not> isValid level pitch \<longrightarrow>
            fastPassRef (handlePitchSampleForRangeTest timestamp level pitch s) = noFastPass)
       \<and> (isValid level pitch \<and> confidence pitch < CONFIDENCE_PASS_THRESHOLD
           \<and> fp_stage (fastPassRef s) = Some (stageRef s) \<longrightarrow>
            fastPassRef (handlePitchSampleForRangeTest timestamp level pitch s) = noFastPass)
       \<and> (isValid level pitch \<and> CONFIDENCE_PASS_THRESHOLD \<le> confidence pitch
           \<and> \<not> (fp_stage (fastPassRef s) = Some (stageRef s) \<and> fp_startAt (fastPassRef s) \<noteq> None) \<longrightarrow>
            fastPassRef (handlePitchSampleForRangeTest timestamp level pitch s)
              = \<lparr>fp_stage = Some (stageRef s), fp_startAt = Some timestamp\<rparr>
            \<or> fastPassRef (handlePitchSampleForRangeTest timestamp level pitch s) = noFastPass)"
proof (intro conjI impI)
  assume a: "fastPassRef s = \<lparr>fp_stage = Some (stageRef s), fp_startAt = Some t0\<rparr>
          \<and> (\<forall>u \<in> set (feedStates s mids). stageRef u = stageRef s \<and> fastPassRef u \<noteq> noFastPass)
          \<and> isValid level pitch \<and> frequency_hz pitch = Some freq
          \<and> CONFIDENCE_PASS_THRESHOLD \<le> confidence pitch
          \<and> CONFIDENCE_PASS_MS \<le> timestamp - t0"
  let ?u = "feed s mids"
  let ?m = "frequencyToMidi freq"
  let ?done = "completeStageWithMidi (stageRef s) ?m timestamp ?u"
  have "?u = feed (startRangeTest now s0) (pre @ mids)"
    unfolding assms(1) by (simp only: feed_append)
  moreover have "clockFrom now ((pre @ mids) @ [(timestamp, level, pitch)])"
    using assms(2) by simp
  ultimately have wt: "wellTimed timestamp ?u"
    by (simp only: run_wellTimed)
  then have gate: "silenceGate timestamp level ?u = ?u"
    by (simp add: wellTimed_iff silenceGate_disarmed)
  from a have kept: "fastPassRef ?u = \<lparr>fp_stage = Some (stageRef s), fp_startAt = Some t0\<rparr>"
    and st: "stageRef ?u = stageRef s"
    using dwell_survives [OF assms(3) refl, of t0 mids] by blast+
  have hv: "handlePitchSampleForRangeTest timestamp level pitch ?u
              = validSample (stageRef s) timestamp pitch freq ?u"
    using handler_valid [of ?u level pitch freq timestamp] assms(3) a st by (simp add: gate)
  have fire: "validSample (stageRef s) timestamp pitch freq ?u = ?done"
    by (rule validSample_fires [where ?t0.0 = t0]) (use a kept in simp_all)
  have eq: "handlePitchSampleForRangeTest timestamp level pitch ?u = ?done"
    by (simp only: hv fire)
  have hist: "stableHistoryRef ?done = stableHistoryRef ?u"
    by (simp add: completeStage_history)
  have low: "lowMidiRef ?done = Some ?m \<and> stageRef ?done = CaptureHigh"
    if "stageRef s = CaptureLow"
    unfolding that by (simp only: completeStage_low)
  have high: "\<exists>low. lowMidiRef ?u = Some low
       \<and> (low + HIGH_NOTE_MIN_SEMITONES \<le> ?m \<longrightarrow>
            highMidiRef ?done = Some ?m \<and> stageRef ?done = Done)
       \<and> (?m < low + HIGH_NOTE_MIN_SEMITONES \<longrightarrow>
            highMidiRef ?done = None \<and> stageRef ?done = CaptureHigh
            \<and> fastPassRef ?done = noFastPass
            \<and> testInstruction ?done =
                ''Detected pitch is too close to low note. Please sing higher and hold.'')"
    if sh: "stageRef s = CaptureHigh"
  proof -
    from wt st sh obtain lo where lo: "lowMidiRef ?u = Some lo" and nohigh: "highMidiRef ?u = None"
      by (auto simp: wellTimed_iff)
    have t0: "fp_startAt (fastPassRef ?u) = Some t0" by (simp add: kept)
    have delay: "HIGH_STAGE_MIN_DELAY_MS \<le> timestamp - stageEnteredAtRef ?u"
      using a by (intro fastPass_attempt_delay [OF wt t0]) simp
    have ok: "highMidiRef ?done = Some ?m \<and> stageRef ?done = Done"
      if "lo + HIGH_NOTE_MIN_SEMITONES \<le> ?m"
      unfolding sh using completeStage_high [OF lo that delay] by simp
    have rej: "highMidiRef ?done = None \<and> stageRef ?done = CaptureHigh
           \<and> fastPassRef ?done = noFastPass
           \<and> testInstruction ?done =
               ''Detected pitch is too close to low note. Please sing higher and hold.''"
      if "?m < lo + HIGH_NOTE_MIN_SEMITONES"
      unfolding sh completeStage_rejects [OF lo that delay]
      using st sh nohigh by simp
    from lo ok rej show ?thesis by blast
  qed
  show "let u = feed s mids;
            s' = handlePitchSampleForRangeTest timestamp level pitch u
        in s' = completeStageWithMidi (stageRef s) (frequencyToMidi freq) timestamp u
           \<and> stableHistoryRef s' = stableHistoryRef u
           \<and> (stageRef s = CaptureLow \<longrightarrow>
                 lowMidiRef s' = Some (frequencyToMidi freq) \<and> stageRef s' = CaptureHigh)
           \<and> (stageRef s = CaptureHigh \<longrightarrow>
                 (\<exists>low. lowMidiRef u = Some low
                    \<and> (low + HIGH_NOTE_MIN_SEMITONES \<le> frequencyToMidi freq \<longrightarrow>
                         highMidiRef s' = Some (frequencyToMidi freq) \<and> stageRef s' = Done)
                    \<and> (frequencyToMidi freq < low + HIGH_NOTE_MIN_SEMITONES \<longrightarrow>
                         highMidiRef s' = None \<and> stageRef s' = CaptureHigh
                         \<and> fastPassRef s' = noFastPass
                         \<and> testInstruction s' =
                             ''Detected pitch is too close to low note. Please sing higher and hold.'')))"
    unfolding Let_def eq using hist low high by blast
next
  assume "\<not> isValid level pitch"
  with assms(3) have hi: "handlePitchSampleForRangeTest timestamp level pitch s
      = invalidSample timestamp (silenceGate timestamp level s)"
    by (rule handler_invalid)
  show "fastPassRef (handlePitchSampleForRangeTest timestamp level pitch s) = noFastPass"
    unfolding hi by (rule invalidSample_fastPass)
next
  assume c: "isValid level pitch \<and> confidence pitch < CONFIDENCE_PASS_THRESHOLD
           \<and> fp_stage (fastPassRef s) = Some (stageRef s)"
  then obtain freq' where f: "frequency_hz pitch = Some freq'" using isValid_frequency by blast
  have hv: "handlePitchSampleForRangeTest timestamp level pitch s
              = validSample (stageRef s) timestamp pitch freq' (silenceGate timestamp level s)"
    using assms(3) c f by (intro handler_valid) simp_all
  show "fastPassRef (handlePitchSampleForRangeTest timestamp level pitch s) = noFastPass"
    unfolding hv by (rule validSample_cancels) (use c in \<open>simp_all add: silenceGate_cells\<close>)
next
  assume d: "isValid level pitch \<and> CONFIDENCE_PASS_THRESHOLD \<le> confidence pitch
           \<and> \<not> (fp_stage (fastPassRef s) = Some (stageRef s) \<and> fp_startAt (fastPassRef s) \<noteq> None)"
  then obtain freq' where f: "frequency_hz pitch = Some freq'" using isValid_frequency by blast
  have hv: "handlePitchSampleForRangeTest timestamp level pitch s
              = validSample (stageRef s) timestamp pitch freq' (silenceGate timestamp level s)"
    using assms(3) d f by (intro handler_valid) simp_all
  show "fastPassRef (handlePitchSampleForRangeTest timestamp level pitch s)
              = \<lparr>fp_stage = Some (stageRef s), fp_startAt = Some timestamp\<rparr>
            \<or> fastPassRef (handlePitchSampleForRangeTest timestamp level pitch s) = noFastPass"
    unfolding hv by (rule validSample_anchors) (use d in \<open>simp_all add: silenceGate_cells\<close>)
qed

text \<open>
  The theorem on streams of confident samples. A dwell started at 0 ms survives a confident
  sample at 100 ms and completes the low stage at 250 ms with the pitch 69. In the high
  stage with the low note 57, a dwell started at 300 ms completes the test at 550 ms with
  69. In the high stage with the low note 69, a dwell started at 300 ms survives the
  sample at 400 ms, and the sample of pitch 69 at 550 ms is turned down: nothing is
  recorded and the dwell is cleared. A sample at level 0 and a sample with confidence 0.3
  each clear the dwell, and the first confident sample of the test starts the dwell at its
  timestamp.
\<close>

theorem fast_pass_completes_and_cancels_witness:
  "clockFrom 0 ([(0, 1/2, tone 440 (9/10))] @ [(100, 1/2, tone 440 (9/10))]
                @ [(250, 1/2, tone 440 (9/10))])
   \<and> fastPassRef (feed started [(0, 1/2, tone 440 (9/10))])
     = \<lparr>fp_stage = Some CaptureLow, fp_startAt = Some 0\<rparr>
   \<and> lowMidiRef (handlePitchSampleForRangeTest 250 (1/2) (tone 440 (9/10))
        (feed (feed started [(0, 1/2, tone 440 (9/10))]) [(100, 1/2, tone 440 (9/10))])) = Some 69
   \<and> stageRef (handlePitchSampleForRangeTest 250 (1/2) (tone 440 (9/10))
        (feed (feed started [(0, 1/2, tone 440 (9/10))]) [(100, 1/2, tone 440 (9/10))])) = CaptureHigh
   \<and> highMidiRef (handlePitchSampleForRangeTest 550 (1/2) (tone 440 (9/10))
        (feed (feed started [(0, 1/2, tone 220 (9/10)), (250, 1/2, tone 220 (9/10)),
                       (300, 1/2, tone 440 (9/10))]) [])) = Some 69
   \<and> stageRef (handlePitchSampleForRangeTest 550 (1/2) (tone 440 (9/10))
        (feed (feed started [(0, 1/2, tone 220 (9/10)), (250, 1/2, tone 220 (9/10)),
                       (300, 1/2, tone 440 (9/10))]) [])) = Done
   \<and> highMidiRef (handlePitchSampleForRangeTest 550 (1/2) (tone 440 (9/10))
        (feed (feed started [(0, 1/2, tone 440 (9/10)), (250, 1/2, tone 440 (9/10)),
                       (300, 1/2, tone 440 (9/10))]) [(400, 1/2, tone 440 (9/10))])) = None
   \<and> stageRef (handlePitchSampleForRangeTest 550 (1/2) (tone 440 (9/10))
        (feed (feed started [(0, 1/2, tone 440 (9/10)), (250, 1/2, tone 440 (9/10)),
                       (300, 1/2, tone 440 (9/10))]) [(400, 1/2, tone 440 (9/10))])) = CaptureHigh
   \<and> fastPassRef (handlePitchSampleForRangeTest 550 (1/2) (tone 440 (9/10))
        (feed (feed started [(0, 1/2, tone 440 (9/10)), (250, 1/2, tone 440 (9/10)),
                       (300, 1/2, tone 440 (9/10))]) [(400, 1/2, tone 440 (9/10))])) = noFastPass
   \<and> fastPassRef (handlePitchSampleForRangeTest 100 0 (tone 440 (9/10))
        (feed started [(0, 1/2, tone 440 (9/10))])) = noFastPass
   \<and> fastPassRef (handlePitchSampleForRangeTest 100 (1/2) (tone 440 (3/10))
        (feed started [(0, 1/2, tone 440 (9/10))])) = noFastPass
   \<and> fastPassRef (handlePitchSampleForRangeTest 0 (1/2) (tone 440 (9/10)) (feed started []))
     = \<lparr>fp_stage = Some CaptureLow, fp_startAt = Some 0\<rparr>"
proof -
  let ?a = "(0, 1/2, tone 440 (9/10))"
  let ?lo = "[(0, 1/2, tone 220 (9/10)), (250, 1/2, tone 220 (9/10)), (300, 1/2, tone 440 (9/10))]"
  let ?eq = "[(0, 1/2, tone 440 (9/10)), (250, 1/2, tone 440 (9/10)), (300, 1/2, tone 440 (9/10))]"
  note eval = started_eq handler_eval consts_eval
  have run: "feed started xs = feed (startRangeTest 0 initialCapture) xs" for xs
    by (simp only: started_def)
  have clock1: "clockFrom 0 ([?a] @ [(100, 1/2, tone 440 (9/10))] @ [(250, 1/2, tone 440 (9/10))])"
    and clock2: "clockFrom 0 (?lo @ [] @ [(550, 1/2, tone 440 (9/10))])"
    and clock3: "clockFrom 0 (?eq @ [(400, 1/2, tone 440 (9/10))] @ [(550, 1/2, tone 440 (9/10))])"
    and clock4: "clockFrom 0 ([?a] @ [] @ [(100, 0, tone 440 (9/10))])"
    and clock5: "clockFrom 0 ([?a] @ [] @ [(100, 1/2, tone 440 (3/10))])"
    and clock6: "clockFrom 0 ([] @ [] @ [?a])"
    by simp_all
  have st0: "stageRef (feed started []) = CaptureLow \<or> stageRef (feed started []) = CaptureHigh"
    and st1: "stageRef (feed started [?a]) = CaptureLow \<or> stageRef (feed started [?a]) = CaptureHigh"
    and st2: "stageRef (feed started ?lo) = CaptureLow \<or> stageRef (feed started ?lo) = CaptureHigh"
    and st3: "stageRef (feed started ?eq) = CaptureLow \<or> stageRef (feed started ?eq) = CaptureHigh"
    by (simp_all add: eval)
  have low: "lowMidiRef (handlePitchSampleForRangeTest 250 (1/2) (tone 440 (9/10))
        (feed (feed started [?a]) [(100, 1/2, tone 440 (9/10))])) = Some 69
      \<and> stageRef (handlePitchSampleForRangeTest 250 (1/2) (tone 440 (9/10))
        (feed (feed started [?a]) [(100, 1/2, tone 440 (9/10))])) = CaptureHigh"
    using fast_pass_completes_and_cancels [where ?t0.0 = 0 and freq = 440,
        OF run clock1 st1, THEN conjunct1]
    by (simp add: eval)
  have high: "highMidiRef (handlePitchSampleForRangeTest 550 (1/2) (tone 440 (9/10))
        (feed (feed started ?lo) [])) = Some 69
      \<and> stageRef (handlePitchSampleForRangeTest 550 (1/2) (tone 440 (9/10))
        (feed (feed started ?lo) [])) = Done"
    using fast_pass_completes_and_cancels [where ?t0.0 = 300 and freq = 440,
        OF run clock2 st2, THEN conjunct1]
    by (simp add: eval)
  have close: "highMidiRef (handlePitchSampleForRangeTest 550 (1/2) (tone 440 (9/10))
        (feed (feed started ?eq) [(400, 1/2, tone 440 (9/10))])) = None
      \<and> stageRef (handlePitchSampleForRangeTest 550 (1/2) (tone 440 (9/10))
        (feed (feed started ?eq) [(400, 1/2, tone 440 (9/10))])) = CaptureHigh
      \<and> fastPassRef (handlePitchSampleForRangeTest 550 (1/2) (tone 440 (9/10))
        (feed (feed started ?eq) [(400, 1/2, tone 440 (9/10))])) = noFastPass"
    using fast_pass_completes_and_cancels [where ?t0.0 = 300 and freq = 440,
        OF run clock3 st3, THEN conjunct1]
    by (simp add: eval)
  have invalid: "fastPassRef (handlePitchSampleForRangeTest 100 0 (tone 440 (9/10))
        (feed started [?a])) = noFastPass"
    by (rule fast_pass_completes_and_cancels [OF run clock4 st1, THEN conjunct2, THEN conjunct1,
              rule_format])
       (simp add: isValid_def consts_eval)
  have unsure: "fastPassRef (handlePitchSampleForRangeTest 100 (1/2) (tone 440 (3/10))
        (feed started [?a])) = noFastPass"
    by (rule fast_pass_completes_and_cancels [OF run clock5 st1, THEN conjunct2, THEN conjunct2,
              THEN conjunct1, rule_format])
       (simp add: eval)
  have first: "fastPassRef (handlePitchSampleForRangeTest 0 (1/2) (tone 440 (9/10)) (feed started []))
     = \<lparr>fp_stage = Some CaptureLow, fp_startAt = Some 0\<rparr>"
    using fast_pass_completes_and_cancels [OF run clock6 st0, THEN conjunct2, THEN conjunct2,
        THEN conjunct2]
    by (simp add: eval)
  have dwell: "fastPassRef (feed started [?a])
     = \<lparr>fp_stage = Some CaptureLow, fp_startAt = Some 0\<rparr>"
    by (simp add: eval)
  from low high close show ?thesis
    by (elim conjE) (intro conjI clock1 dwell invalid unsure first; assumption)
qed

text \<open>
  C6 fails as stated. In the high stage with the low note 69, the first confident sample
  arrives at 300 ms and a confident sample of pitch 69 arrives 250 ms later, with no reset
  of the dwell in between. The stage does not complete: it stays \<open>CaptureHigh\<close> and no high
  note is recorded, because the pitch is not 0.5 above the low note.
\<close>

theorem confident_dwell_without_completion:
  "stageRef (feed started
      [(0, 1/2, tone 440 (9/10)), (250, 1/2, tone 440 (9/10)), (300, 1/2, tone 440 (9/10))])
     = CaptureHigh
   \<and> fastPassRef (feed started
      [(0, 1/2, tone 440 (9/10)), (250, 1/2, tone 440 (9/10)), (300, 1/2, tone 440 (9/10))])
     = \<lparr>fp_stage = Some CaptureHigh, fp_startAt = Some 300\<rparr>
   \<and> lowMidiRef (feed started
      [(0, 1/2, tone 440 (9/10)), (250, 1/2, tone 440 (9/10)), (300, 1/2, tone 440 (9/10))])
     = Some 69
   \<and> isValid (1/2) (tone 440 (9/10))
   \<and> CONFIDENCE_PASS_THRESHOLD \<le> confidence (tone 440 (9/10))
   \<and> CONFIDENCE_PASS_MS \<le> 550 - 300
   \<and> stageRef (feed started
      [(0, 1/2, tone 440 (9/10)), (250, 1/2, tone 440 (9/10)), (300, 1/2, tone 440 (9/10)),
       (550, 1/2, tone 440 (9/10))]) = CaptureHigh
   \<and> highMidiRef (feed started
      [(0, 1/2, tone 440 (9/10)), (250, 1/2, tone 440 (9/10)), (300, 1/2, tone 440 (9/10)),
       (550, 1/2, tone 440 (9/10))]) = None
   \<and> highMidi (rangeResult (feed started
      [(0, 1/2, tone 440 (9/10)), (250, 1/2, tone 440 (9/10)), (300, 1/2, tone 440 (9/10)),
       (550, 1/2, tone 440 (9/10))])) = None"
  by (simp add: started_eq handler_eval consts_eval)

subsection \<open>C7: the widened fallback query\<close>

lemma jsRound_int: "jsRound (of_int n) = n"
  by (simp add: jsRound_def)

text \<open>The commands one load adds to the log, for a complete \<^verbatim>\<open>RangeResult\<close>.\<close>

lemma loadRecommendations_log:
  assumes "rangeResult (capture a) = \<lparr>lowMidi = Some low, highMidi = Some high,
             comfortLowMidi = Some comfortLow, comfortHighMidi = Some comfortHigh\<rparr>"
  shows "invokeLog (loadRecommendations importedReply rangedReply a) =
     invokeLog a @
       (case importedReply of
          Rejected err \<Rightarrow> [RecommendImportedSongs]
        | Resolved importedOnly \<Rightarrow>
            (if rangedReply (RecommendSongs (jsRound low) (jsRound high)
                               (jsRound comfortLow) (jsRound comfortHigh)) = Resolved []
             then [RecommendImportedSongs,
                   RecommendSongs (jsRound low) (jsRound high) (jsRound comfortLow) (jsRound comfortHigh),
                   RecommendSongs (jsRound low - 4) (jsRound high + 4)
                     (jsRound comfortLow - 2) (jsRound comfortHigh + 2)]
             else [RecommendImportedSongs,
                   RecommendSongs (jsRound low) (jsRound high) (jsRound comfortLow) (jsRound comfortHigh)]))"
  using assms
  by (auto simp: loadRecommendations_def loadFailed_def loadMerged_def Let_def
           split: invoked.splits)

text \<open>
  C7. For every load with a complete \<^verbatim>\<open>RangeResult\<close>, with \<open>primary\<close> the query on the
  rounded bounds and \<open>fallback\<close> the query with the overall bounds widened by 4 and the
  comfort bounds by 2 on each side: the fallback is among the commands issued by the load
  if and only if the primary was issued and returned no song. When the fallback then
  returns a non-empty list, the status becomes
  \<open>No strict matches. Showing closest challenge songs.\<close> and the list shown is that reply
  merged with the imported songs. When the primary returns a non-empty list, the fallback
  is not issued and the status is left as it was.
\<close>

theorem fallback_iff_primary_empty:
  assumes "rangeResult (capture a) = \<lparr>lowMidi = Some low, highMidi = Some high,
             comfortLowMidi = Some comfortLow, comfortHighMidi = Some comfortHigh\<rparr>"
  shows "let primary = RecommendSongs (jsRound low) (jsRound high)
                         (jsRound comfortLow) (jsRound comfortHigh);
             fallback = RecommendSongs (jsRound low - 4) (jsRound high + 4)
                          (jsRound comfortLow - 2) (jsRound comfortHigh + 2);
             a' = loadRecommendations importedReply rangedReply a;
             issued = drop (length (invokeLog a)) (invokeLog a')
         in (fallback \<in> set issued \<longleftrightarrow> primary \<in> set issued \<and> rangedReply primary = Resolved [])
          \<and> (\<forall>importedOnly recs.
                importedReply = Resolved importedOnly \<and> rangedReply primary = Resolved []
                \<and> rangedReply fallback = Resolved recs \<and> recs \<noteq> [] \<longrightarrow>
                status a' = ''No strict matches. Showing closest challenge songs.''
                \<and> recommendations a' = mergeImported (set (map songKey recs)) recs importedOnly)
          \<and> (\<forall>importedOnly recs.
                importedReply = Resolved importedOnly \<and> rangedReply primary = Resolved recs
                \<and> recs \<noteq> [] \<longrightarrow>
                fallback \<notin> set issued \<and> status a' = status a
                \<and> recommendations a' = mergeImported (set (map songKey recs)) recs importedOnly)"
  unfolding Let_def loadRecommendations_log [OF assms]
  using assms
  by (auto simp: loadRecommendations_def loadFailed_def loadMerged_def Let_def
           split: invoked.splits)

text \<open>
  The theorem at the range 48--72 with comfort 55--67: when the primary query
  \<open>[48,72]/[55,67]\<close> finds nothing, the fallback \<open>[44,76]/[53,69]\<close> is issued and its match
  is flagged; when the primary finds a song, only it is issued and the status stays.
\<close>

theorem fallback_iff_primary_empty_witness:
  "rangeResult (capture tested) = \<lparr>lowMidi = Some 48, highMidi = Some 72,
       comfortLowMidi = Some 55, comfortHighMidi = Some 67\<rparr>
   \<and> invokeLog (loadRecommendations (Resolved [])
        (\<lambda>q. if q = RecommendSongs 48 72 55 67 then Resolved []
              else Resolved [song ''Far'' ''Band'' 58 False]) tested)
      = [RecommendImportedSongs, RecommendSongs 48 72 55 67, RecommendSongs 44 76 53 69]
   \<and> status (loadRecommendations (Resolved [])
        (\<lambda>q. if q = RecommendSongs 48 72 55 67 then Resolved []
              else Resolved [song ''Far'' ''Band'' 58 False]) tested)
      = ''No strict matches. Showing closest challenge songs.''
   \<and> invokeLog (loadRecommendations (Resolved [])
        (\<lambda>q. Resolved [song ''Near'' ''Band'' 93 False]) tested)
      = [RecommendImportedSongs, RecommendSongs 48 72 55 67]
   \<and> status (loadRecommendations (Resolved [])
        (\<lambda>q. Resolved [song ''Near'' ''Band'' 93 False]) tested) = ''Idle''"
  using fallback_iff_primary_empty [where a = tested and low = 48 and high = 72
          and comfortLow = 55 and comfortHigh = 67 and importedReply = "Resolved []"
          and rangedReply = "\<lambda>q. if q = RecommendSongs 48 72 55 67 then Resolved []
              else Resolved [song ''Far'' ''Band'' 58 False]"]
        fallback_iff_primary_empty [where a = tested and low = 48 and high = 72
          and comfortLow = 55 and comfortHigh = 67 and importedReply = "Resolved []"
          and rangedReply = "\<lambda>q. Resolved [song ''Near'' ''Band'' 93 False]"]
  by (simp add: tested_def initialApp_def jsRound_def loadRecommendations_def loadMerged_def
        Let_def song_def)

subsection \<open>C8: imported songs in the merged list and in the top-5 view\<close>

lemma mergeImported_extends: "\<exists>added. mergeImported seen merged imp = merged @ added"
  by (induction seen merged imp rule: mergeImported.induct) (auto simp: Let_def)

lemma mergeImported_keeps: "set merged \<subseteq> set (mergeImported seen merged imp)"
  using mergeImported_extends [of seen merged imp] by auto

lemma unseenImported_covers:
  "s \<in> set xs \<Longrightarrow> is_imported s
   \<Longrightarrow> songKey s \<in> seen \<or> songKey s \<in> set (map songKey (unseenImported seen xs))"
  by (induction seen xs rule: unseenImported.induct) auto

lemma unseenImported_sound:
  "r \<in> set (unseenImported seen xs) \<Longrightarrow> r \<in> set xs \<and> is_imported r \<and> songKey r \<notin> seen"
  by (induction seen xs rule: unseenImported.induct) (auto split: if_splits)

lemma unseenImported_distinct: "distinct (map songKey (unseenImported seen xs))"
proof (induction seen xs rule: unseenImported.induct)
  case (1 seen)
  then show ?case by simp
next
  case (2 seen s rest)
  have "songKey s \<notin> set (map songKey (unseenImported (insert (songKey s) seen) rest))"
    using unseenImported_sound [of _ "insert (songKey s) seen" rest] by force
  with 2 show ?case by simp
qed

text \<open>A load in which no call is rejected stores the merge of some ranged reply.\<close>

lemma load_merged_form:
  assumes "\<forall>q err. rangedReply q \<noteq> Rejected err"
  shows "\<exists>recs. recommendations (loadRecommendations (Resolved importedOnly) rangedReply a)
                  = mergeImported (set (map songKey recs)) recs importedOnly
              \<and> (recs = [] \<or> (\<exists>q. rangedReply q = Resolved recs))"
proof -
  have res: "\<exists>recs. rangedReply q = Resolved recs" for q
    using assms by (cases "rangedReply q") auto
  show ?thesis
  proof (cases "\<exists>low high cl ch. (lowMidi (rangeResult (capture a)), highMidi (rangeResult (capture a)),
                  comfortLowMidi (rangeResult (capture a)), comfortHighMidi (rangeResult (capture a)))
                 = (Some low, Some high, Some cl, Some ch)")
    case False
    then have "recommendations (loadRecommendations (Resolved importedOnly) rangedReply a)
                 = mergeImported (set (map songKey [])) [] importedOnly"
      by (auto simp: loadRecommendations_def loadMerged_def Let_def split: option.splits)
    then show ?thesis by blast
  next
    case True
    then obtain low high cl ch where rr: "lowMidi (rangeResult (capture a)) = Some low"
      "highMidi (rangeResult (capture a)) = Some high"
      "comfortLowMidi (rangeResult (capture a)) = Some cl"
      "comfortHighMidi (rangeResult (capture a)) = Some ch" by auto
    let ?p = "RecommendSongs (jsRound low) (jsRound high) (jsRound cl) (jsRound ch)"
    let ?f = "RecommendSongs (jsRound low - 4) (jsRound high + 4) (jsRound cl - 2) (jsRound ch + 2)"
    obtain recs where p: "rangedReply ?p = Resolved recs" using res by blast
    obtain recs2 where f: "rangedReply ?f = Resolved recs2" using res by blast
    show ?thesis
    proof (cases "recs = []")
      case True
      have "recommendations (loadRecommendations (Resolved importedOnly) rangedReply a)
              = mergeImported (set (map songKey recs2)) recs2 importedOnly"
        using rr p f True by (simp add: loadRecommendations_def loadMerged_def Let_def)
      with f show ?thesis by blast
    next
      case False
      have "recommendations (loadRecommendations (Resolved importedOnly) rangedReply a)
              = mergeImported (set (map songKey recs)) recs importedOnly"
        using rr p False by (simp add: loadRecommendations_def loadMerged_def Let_def)
      with p show ?thesis by blast
    qed
  qed
qed

text \<open>
  The entries of the merged list under one key: those of the ranged list and, when the
  key is new, the first imported-only song with that key.
\<close>

lemma mergeImported_key:
  "filter (\<lambda>r. songKey r = k) (mergeImported seen merged imp)
     = filter (\<lambda>r. songKey r = k) merged
       @ (if k \<in> seen then [] else take 1 (filter (\<lambda>r. songKey r = k) imp))"
  by (induction seen merged imp rule: mergeImported.induct) auto

lemma first_of_key:
  assumes "s \<in> set imp"
  shows "take 1 (filter (\<lambda>r. songKey r = songKey s) imp)
           = [hd (filter (\<lambda>r. songKey r = songKey s) imp)]"
proof -
  from assms have "filter (\<lambda>r. songKey r = songKey s) imp \<noteq> []"
    by (auto simp: filter_empty_conv)
  then show ?thesis
    by (cases "filter (\<lambda>r. songKey r = songKey s) imp") simp_all
qed

lemma alone_under_key:
  assumes "filter (\<lambda>r. songKey r = songKey s) xs = [s]"
  shows "s \<in> set xs" and "\<And>r. r \<in> set xs \<Longrightarrow> songKey r = songKey s \<Longrightarrow> r = s"
    and "filter (\<lambda>r. r = s) xs = [s]"
proof -
  have mem: "r \<in> set (filter (\<lambda>r. songKey r = songKey s) xs) \<longleftrightarrow> r = s" for r
    unfolding assms by simp
  from mem [of s] show "s \<in> set xs" by simp
  show same: "r = s" if "r \<in> set xs" and "songKey r = songKey s" for r
    using mem [of r] that by simp
  have "filter (\<lambda>r. r = s) xs = filter (\<lambda>r. r = s) (filter (\<lambda>r. songKey r = songKey s) xs)"
    by (auto simp: filter_filter intro: filter_cong)
  then show "filter (\<lambda>r. r = s) xs = [s]"
    unfolding assms by simp
qed

text \<open>
  An entry flagged imported that stands alone under its key is in the top-5 view: among
  the first five or appended.
\<close>

lemma unseenImported_alone:
  "filter (\<lambda>r. songKey r = songKey s) xs = [s] \<Longrightarrow> is_imported s \<Longrightarrow> songKey s \<notin> seen
   \<Longrightarrow> s \<in> set (unseenImported seen xs)"
proof (induction seen xs rule: unseenImported.induct)
  case (1 seen)
  then show ?case by simp
next
  case (2 seen x rest)
  show ?case
  proof (cases "songKey x = songKey s")
    case True
    with "2.prems"(1) have "x = s" by simp
    with "2.prems"(2,3) show ?thesis by simp
  next
    case False
    with "2.prems"(1) have rest: "filter (\<lambda>r. songKey r = songKey s) rest = [s]" by simp
    from False "2.prems"(3) have new: "songKey s \<notin> insert (songKey x) seen" by auto
    show ?thesis
      using "2.IH"(1) [OF _ rest "2.prems"(2,3)] "2.IH"(2) [OF _ _ rest "2.prems"(2,3)]
        "2.IH"(3) [OF _ _ rest "2.prems"(2) new]
      by auto
  qed
qed

lemma visible_alone:
  assumes "\<not> showAllRecommendations b"
    and "filter (\<lambda>r. songKey r = songKey s) (recommendations b) = [s]" and "is_imported s"
  shows "s \<in> set (visibleRecommendations b)"
proof (cases "s \<in> set (take 5 (recommendations b))")
  case True
  with assms(1) show ?thesis by (simp add: visibleRecommendations_def Let_def)
next
  case False
  have "songKey s \<notin> set (map songKey (take 5 (recommendations b)))"
  proof
    assume "songKey s \<in> set (map songKey (take 5 (recommendations b)))"
    then obtain r where r: "r \<in> set (take 5 (recommendations b))" and k: "songKey r = songKey s"
      by auto
    from r have "r \<in> set (recommendations b)" by (rule in_set_takeD)
    from alone_under_key(2) [OF assms(2) this k] r False show False by simp
  qed
  from unseenImported_alone [OF assms(2,3) this] assms(1) show ?thesis
    by (simp add: visibleRecommendations_def Let_def)
qed

lemma load_shows_top:
  "\<not> showAllRecommendations (loadRecommendations importedReply rangedReply a)"
  by (simp add: loadRecommendations_def loadMerged_def loadFailed_def Let_def
      split: invoked.splits option.splits)

text \<open>
  C8, as the code has it. The merge starts from the ranged list \<open>recs\<close> (the reply used, or
  the empty list when the range is incomplete) and appends an imported-only song when its
  key \<^verbatim>\<open>title::artist\<close> has not been seen; it does not deduplicate the ranged list, and a
  rejected call replaces the list by the empty one. For every load in which no ranged call
  is rejected, and every song \<open>s\<close> of the imported-only reply: when no ranged entry has the
  key of \<open>s\<close>, the merged list holds exactly one entry with that key, the first song of the
  imported-only reply with that key, whatever its score; if that is \<open>s\<close>, then \<open>s\<close> occurs
  exactly once in the list; and if it is flagged imported, it is in the list shown after
  the load. When a ranged entry has the key of \<open>s\<close>, the song is not added: the entries
  with that key are those of the ranged list. And for every state with
  \<^verbatim>\<open>showAllRecommendations\<close> off: the list shown is the first five recommendations followed
  by the entries flagged imported whose key is not yet among them; so every entry flagged
  imported has its key in the list shown, it is itself in the list shown when it stands
  alone under its key, and with the filter chip on \<open>all\<close> nothing is removed.
\<close>

theorem imported_songs_kept:
  assumes "\<forall>q err. rangedReply q \<noteq> Rejected err"
  shows "let a' = loadRecommendations (Resolved importedOnly) rangedReply a
         in (\<exists>recs. (recs = [] \<or> (\<exists>q. rangedReply q = Resolved recs))
               \<and> take (length recs) (recommendations a') = recs
               \<and> (\<forall>s \<in> set importedOnly.
                    let first = hd (filter (\<lambda>r. songKey r = songKey s) importedOnly)
                    in (songKey s \<notin> set (map songKey recs) \<longrightarrow>
                          filter (\<lambda>r. songKey r = songKey s) (recommendations a') = [first]
                          \<and> (first = s \<longrightarrow> filter (\<lambda>r. r = s) (recommendations a') = [s])
                          \<and> (is_imported first \<longrightarrow> first \<in> set (visibleRecommendations a')))
                     \<and> (songKey s \<in> set (map songKey recs) \<longrightarrow>
                          filter (\<lambda>r. songKey r = songKey s) (recommendations a')
                            = filter (\<lambda>r. songKey r = songKey s) recs)))
          \<and> (\<not> showAllRecommendations b \<longrightarrow>
               visibleRecommendations b
                 = take 5 (recommendations b)
                   @ unseenImported (set (map songKey (take 5 (recommendations b)))) (recommendations b)
               \<and> (\<forall>s \<in> set (recommendations b).
                     is_imported s \<longrightarrow>
                       songKey s \<in> set (map songKey (visibleRecommendations b))
                       \<and> (filter (\<lambda>r. songKey r = songKey s) (recommendations b) = [s] \<longrightarrow>
                            s \<in> set (visibleRecommendations b)))
               \<and> (recoFilter b = ''all'' \<longrightarrow> filteredRecommendations b = visibleRecommendations b))"
proof -
  let ?a' = "loadRecommendations (Resolved importedOnly) rangedReply a"
  obtain recs where m: "recommendations ?a' = mergeImported (set (map songKey recs)) recs importedOnly"
    and src: "recs = [] \<or> (\<exists>q. rangedReply q = Resolved recs)"
    using load_merged_form [OF assms] by blast
  have top: "\<not> showAllRecommendations ?a'" by (rule load_shows_top)
  have start: "take (length recs) (recommendations ?a') = recs"
    using mergeImported_extends [of "set (map songKey recs)" recs importedOnly] m by auto
  have key: "filter (\<lambda>r. songKey r = songKey s) (recommendations ?a')
      = filter (\<lambda>r. songKey r = songKey s) recs
        @ (if songKey s \<in> set (map songKey recs) then []
           else [hd (filter (\<lambda>r. songKey r = songKey s) importedOnly)])"
    if "s \<in> set importedOnly" for s
    unfolding m mergeImported_key by (simp only: first_of_key [OF that])
  have new: "filter (\<lambda>r. songKey r = songKey s) (recommendations ?a')
        = [hd (filter (\<lambda>r. songKey r = songKey s) importedOnly)]"
    if "s \<in> set importedOnly" and "songKey s \<notin> set (map songKey recs)" for s
  proof -
    from that(2) have "filter (\<lambda>r. songKey r = songKey s) recs = []"
      by (auto simp: filter_empty_conv image_iff)
    with key [OF that(1)] that(2) show ?thesis by simp
  qed
  have old: "filter (\<lambda>r. songKey r = songKey s) (recommendations ?a')
        = filter (\<lambda>r. songKey r = songKey s) recs"
    if "s \<in> set importedOnly" and "songKey s \<in> set (map songKey recs)" for s
    using key [OF that(1)] that(2) by simp
  have once: "filter (\<lambda>r. r = s) (recommendations ?a') = [s]"
    if "s \<in> set importedOnly" and "songKey s \<notin> set (map songKey recs)"
      and "hd (filter (\<lambda>r. songKey r = songKey s) importedOnly) = s" for s
    using new [OF that(1,2)] unfolding that(3) by (rule alone_under_key(3))
  have shown: "hd (filter (\<lambda>r. songKey r = songKey s) importedOnly) \<in> set (visibleRecommendations ?a')"
    if "s \<in> set importedOnly" and "songKey s \<notin> set (map songKey recs)"
      and "is_imported (hd (filter (\<lambda>r. songKey r = songKey s) importedOnly))" for s
  proof -
    let ?first = "hd (filter (\<lambda>r. songKey r = songKey s) importedOnly)"
    from that(1) have "filter (\<lambda>r. songKey r = songKey s) importedOnly \<noteq> []"
      by (auto simp: filter_empty_conv)
    then have "?first \<in> set (filter (\<lambda>r. songKey r = songKey s) importedOnly)"
      by (rule hd_in_set)
    then have k: "songKey ?first = songKey s" by simp
    have "filter (\<lambda>r. songKey r = songKey ?first) (recommendations ?a') = [?first]"
      unfolding k by (rule new [OF that(1,2)])
    from visible_alone [OF top this that(3)] show ?thesis .
  qed
  have load: "\<exists>recs. (recs = [] \<or> (\<exists>q. rangedReply q = Resolved recs))
               \<and> take (length recs) (recommendations ?a') = recs
               \<and> (\<forall>s \<in> set importedOnly.
                    let first = hd (filter (\<lambda>r. songKey r = songKey s) importedOnly)
                    in (songKey s \<notin> set (map songKey recs) \<longrightarrow>
                          filter (\<lambda>r. songKey r = songKey s) (recommendations ?a') = [first]
                          \<and> (first = s \<longrightarrow> filter (\<lambda>r. r = s) (recommendations ?a') = [s])
                          \<and> (is_imported first \<longrightarrow> first \<in> set (visibleRecommendations ?a')))
                     \<and> (songKey s \<in> set (map songKey recs) \<longrightarrow>
                          filter (\<lambda>r. songKey r = songKey s) (recommendations ?a')
                            = filter (\<lambda>r. songKey r = songKey s) recs))"
    unfolding Let_def
    by (rule exI [of _ recs]) (use src start new old once shown in blast)
  have vis: "songKey s \<in> set (map songKey (visibleRecommendations b))"
    if "\<not> showAllRecommendations b" and "s \<in> set (recommendations b)" and "is_imported s" for s
    using that unseenImported_covers [OF that(2,3), of "set (map songKey (take 5 (recommendations b)))"]
    by (auto simp: visibleRecommendations_def Let_def)
  have view: "\<not> showAllRecommendations b \<longrightarrow>
               visibleRecommendations b
                 = take 5 (recommendations b)
                   @ unseenImported (set (map songKey (take 5 (recommendations b)))) (recommendations b)
               \<and> (\<forall>s \<in> set (recommendations b).
                     is_imported s \<longrightarrow>
                       songKey s \<in> set (map songKey (visibleRecommendations b))
                       \<and> (filter (\<lambda>r. songKey r = songKey s) (recommendations b) = [s] \<longrightarrow>
                            s \<in> set (visibleRecommendations b)))
               \<and> (recoFilter b = ''all'' \<longrightarrow> filteredRecommendations b = visibleRecommendations b)"
    using vis visible_alone [of b]
    by (auto simp: visibleRecommendations_def filteredRecommendations_def Let_def)
  from load view show ?thesis
    unfolding Let_def by (intro conjI) (simp_all only: Let_def)
qed

text \<open>
  The theorem at a load of the tested application whose ranged reply holds five catalogue
  songs and then the catalogue entry \<open>Hit\<close> by \<open>Band\<close>, and whose imported-only reply holds
  \<open>Demo\<close> by \<open>Me\<close> with score 12 and the imported \<open>Hit\<close> by \<open>Band\<close>. \<open>Demo\<close> matches no
  ranged entry: it is the one entry under its key and it is in the list shown, appended
  after the first five. \<open>Hit\<close> matches a ranged entry: the only entry under its key is the
  catalogue one. And at a list of six catalogue songs followed by \<open>Demo\<close>, the top-5 view
  shows the first five and \<open>Demo\<close>.
\<close>

theorem imported_songs_kept_witness:
  "filter (\<lambda>r. songKey r = songKey (song ''Demo'' ''Me'' 12 True))
      (recommendations (loadRecommendations
         (Resolved [song ''Demo'' ''Me'' 12 True, song ''Hit'' ''Band'' 40 True])
         (\<lambda>q. Resolved [song ''A'' ''x'' 99 False, song ''B'' ''x'' 98 False,
                         song ''C'' ''x'' 97 False, song ''D'' ''x'' 96 False,
                         song ''E'' ''x'' 95 False, song ''Hit'' ''Band'' 81 False]) tested))
     = [song ''Demo'' ''Me'' 12 True]
   \<and> song ''Demo'' ''Me'' 12 True
      \<in> set (visibleRecommendations (loadRecommendations
         (Resolved [song ''Demo'' ''Me'' 12 True, song ''Hit'' ''Band'' 40 True])
         (\<lambda>q. Resolved [song ''A'' ''x'' 99 False, song ''B'' ''x'' 98 False,
                         song ''C'' ''x'' 97 False, song ''D'' ''x'' 96 False,
                         song ''E'' ''x'' 95 False, song ''Hit'' ''Band'' 81 False]) tested))
   \<and> filter (\<lambda>r. songKey r = songKey (song ''Hit'' ''Band'' 40 True))
      (recommendations (loadRecommendations
         (Resolved [song ''Demo'' ''Me'' 12 True, song ''Hit'' ''Band'' 40 True])
         (\<lambda>q. Resolved [song ''A'' ''x'' 99 False, song ''B'' ''x'' 98 False,
                         song ''C'' ''x'' 97 False, song ''D'' ''x'' 96 False,
                         song ''E'' ''x'' 95 False, song ''Hit'' ''Band'' 81 False]) tested))
     = [song ''Hit'' ''Band'' 81 False]
   \<and> visibleRecommendations
        (tested\<lparr>recommendations :=
           [song ''A'' ''x'' 99 False, song ''B'' ''x'' 98 False, song ''C'' ''x'' 97 False,
            song ''D'' ''x'' 96 False, song ''E'' ''x'' 95 False, song ''F'' ''x'' 94 False,
            song ''Demo'' ''Me'' 12 True]\<rparr>)
      = [song ''A'' ''x'' 99 False, song ''B'' ''x'' 98 False, song ''C'' ''x'' 97 False,
         song ''D'' ''x'' 96 False, song ''E'' ''x'' 95 False, song ''Demo'' ''Me'' 12 True]"
proof -
  let ?demo = "song ''Demo'' ''Me'' 12 True"
  let ?hit = "song ''Hit'' ''Band'' 40 True"
  let ?imp = "[?demo, ?hit]"
  let ?R = "[song ''A'' ''x'' 99 False, song ''B'' ''x'' 98 False, song ''C'' ''x'' 97 False,
             song ''D'' ''x'' 96 False, song ''E'' ''x'' 95 False, song ''Hit'' ''Band'' 81 False]"
  let ?reply = "\<lambda>q :: Command. (Resolved ?R :: SongRecommendation list invoked)"
  let ?a' = "loadRecommendations (Resolved ?imp) ?reply tested"
  let ?b = "tested\<lparr>recommendations :=
           [song ''A'' ''x'' 99 False, song ''B'' ''x'' 98 False, song ''C'' ''x'' 97 False,
            song ''D'' ''x'' 96 False, song ''E'' ''x'' 95 False, song ''F'' ''x'' 94 False,
            ?demo]\<rparr>"
  note eval = tested_def initialApp_def song_def songKey_def jsRound_def
    loadRecommendations_def loadMerged_def visibleRecommendations_def Let_def
  have pre: "\<forall>q err. ?reply q \<noteq> Rejected err" by simp
  note kept = imported_songs_kept [where rangedReply = ?reply and importedOnly = ?imp
      and a = tested and b = ?b, OF pre, unfolded Let_def]
  from kept [THEN conjunct1] obtain recs
    where src: "recs = [] \<or> (\<exists>q. ?reply q = Resolved recs)"
      and demo: "songKey ?demo \<notin> set (map songKey recs) \<longrightarrow>
          filter (\<lambda>r. songKey r = songKey ?demo) (recommendations ?a')
            = [hd (filter (\<lambda>r. songKey r = songKey ?demo) ?imp)]
          \<and> (is_imported (hd (filter (\<lambda>r. songKey r = songKey ?demo) ?imp)) \<longrightarrow>
               hd (filter (\<lambda>r. songKey r = songKey ?demo) ?imp) \<in> set (visibleRecommendations ?a'))"
      and hit: "(songKey ?hit \<notin> set (map songKey recs) \<longrightarrow>
          filter (\<lambda>r. songKey r = songKey ?hit) (recommendations ?a')
            = [hd (filter (\<lambda>r. songKey r = songKey ?hit) ?imp)])
        \<and> (songKey ?hit \<in> set (map songKey recs) \<longrightarrow>
          filter (\<lambda>r. songKey r = songKey ?hit) (recommendations ?a')
            = filter (\<lambda>r. songKey r = songKey ?hit) recs)"
    by auto
  have merged: "recommendations ?a' = ?R @ [?demo]"
    by (simp add: eval)
  from src have recs: "recs = [] \<or> recs = ?R" by auto
  have first: "hd (filter (\<lambda>r. songKey r = songKey ?demo) ?imp) = ?demo"
    "is_imported ?demo"
    by (simp_all add: song_def songKey_def)
  have new: "songKey ?demo \<notin> set (map songKey recs)"
    using recs by (auto simp: song_def songKey_def)
  have w1: "filter (\<lambda>r. songKey r = songKey ?demo) (recommendations ?a') = [?demo]"
    and w2: "?demo \<in> set (visibleRecommendations ?a')"
    using demo new first(2) unfolding first(1) by simp_all
  have used: "recs = ?R"
  proof (rule ccontr)
    assume "recs \<noteq> ?R"
    with recs have "recs = []" by simp
    with hit have "filter (\<lambda>r. songKey r = songKey ?hit) (recommendations ?a')
            = [hd (filter (\<lambda>r. songKey r = songKey ?hit) ?imp)]"
      by simp
    then show False
      unfolding merged by (simp add: song_def songKey_def)
  qed
  have w3: "filter (\<lambda>r. songKey r = songKey ?hit) (recommendations ?a')
      = [song ''Hit'' ''Band'' 81 False]"
    using hit unfolding used by (simp add: song_def songKey_def)
  have w4: "visibleRecommendations ?b
      = [song ''A'' ''x'' 99 False, song ''B'' ''x'' 98 False, song ''C'' ''x'' 97 False,
         song ''D'' ''x'' 96 False, song ''E'' ''x'' 95 False, ?demo]"
    using kept [THEN conjunct2] by (simp add: eval)
  show ?thesis
    by (intro conjI w1 w2 w3 w4)
qed

text \<open>
  C8 fails as stated. When the ranged reply holds a catalogue entry with the title and
  artist of an imported song, the imported song is not in the merged list: the catalogue
  entry stands in its place. When the ranged call is rejected, the merged list is empty.
  And when that catalogue entry is the sixth of the list, the top-5 view after the load
  shows nothing with the title and artist of the imported song.
\<close>

theorem shadowed_imported_song_absent:
  "recommendations (loadRecommendations
      (Resolved [song ''Hit'' ''Band'' 40 True])
      (\<lambda>q. Resolved [song ''Hit'' ''Band'' 81 False]) tested)
     = [song ''Hit'' ''Band'' 81 False]
   \<and> song ''Hit'' ''Band'' 40 True
      \<notin> set (recommendations (loadRecommendations
           (Resolved [song ''Hit'' ''Band'' 40 True])
           (\<lambda>q. Resolved [song ''Hit'' ''Band'' 81 False]) tested))
   \<and> recommendations (loadRecommendations
        (Resolved [song ''Hit'' ''Band'' 40 True]) (\<lambda>q. Rejected ''offline'') tested) = []
   \<and> visibleRecommendations (loadRecommendations
        (Resolved [song ''Hit'' ''Band'' 40 True])
        (\<lambda>q. Resolved [song ''A'' ''x'' 99 False, song ''B'' ''x'' 98 False,
                        song ''C'' ''x'' 97 False, song ''D'' ''x'' 96 False,
                        song ''E'' ''x'' 95 False, song ''Hit'' ''Band'' 81 False]) tested)
     = [song ''A'' ''x'' 99 False, song ''B'' ''x'' 98 False, song ''C'' ''x'' 97 False,
        song ''D'' ''x'' 96 False, song ''E'' ''x'' 95 False]
   \<and> songKey (song ''Hit'' ''Band'' 40 True)
      \<notin> set (map songKey (visibleRecommendations (loadRecommendations
           (Resolved [song ''Hit'' ''Band'' 40 True])
           (\<lambda>q. Resolved [song ''A'' ''x'' 99 False, song ''B'' ''x'' 98 False,
                           song ''C'' ''x'' 97 False, song ''D'' ''x'' 96 False,
                           song ''E'' ''x'' 95 False, song ''Hit'' ''Band'' 81 False]) tested)))"
  by (simp add: tested_def initialApp_def song_def songKey_def jsRound_def
        loadRecommendations_def loadMerged_def loadFailed_def visibleRecommendations_def Let_def)

subsection \<open>C9: the polling loop under failures\<close>

text \<open>A tick in which both calls fail only counts, until the count reaches 20.\<close>

lemma pollTick_both_fail:
  assumes "bothFail ev" and "\<not> pollInFlightRef a"
  shows "pollTick ev a =
           (if 20 \<le> pollErrorCountRef a + 1 then stopLevelPolling a
            else a\<lparr>pollErrorCountRef := pollErrorCountRef a + 1\<rparr>)"
  using assms
  by (auto simp: pollTick_def bothFail_def pollLevel_def pollPitch_def stopLevelPolling_def
        Let_def split: invoked.splits)

lemma pollRun_failures_below_bound:
  assumes "\<forall>ev \<in> set evs. bothFail ev" and "\<not> pollInFlightRef a"
    and "pollTimerRef a \<noteq> None" and "pollErrorCountRef a + length evs < 20"
  shows "pollRun a evs = a\<lparr>pollErrorCountRef := pollErrorCountRef a + length evs\<rparr>"
  using assms
proof (induction evs arbitrary: a)
  case Nil
  then show ?case by simp
next
  case (Cons ev evs)
  let ?n = "a\<lparr>pollErrorCountRef := pollErrorCountRef a + 1\<rparr>"
  have step: "pollTick ev a = ?n"
    using Cons.prems by (simp add: pollTick_both_fail)
  have "pollRun ?n evs = ?n\<lparr>pollErrorCountRef := pollErrorCountRef ?n + length evs\<rparr>"
    using Cons.prems by (intro Cons.IH) simp_all
  then show ?case using Cons.prems(3) by (simp add: step)
qed

lemma pollRun_snoc:
  "pollRun a (evs @ [ev]) =
     (if pollTimerRef (pollRun a evs) = None then pollRun a evs else pollTick ev (pollRun a evs))"
proof (induction evs arbitrary: a)
  case Nil
  then show ?case by simp
next
  case (Cons e evs)
  then show ?case by (cases evs) auto
qed

lemma pollRun_twenty_failures:
  assumes "\<forall>ev \<in> set evs. bothFail ev" and "\<not> pollInFlightRef a"
    and "pollTimerRef a \<noteq> None" and "pollErrorCountRef a + length evs = 20" and "evs \<noteq> []"
  shows "pollRun a evs = stopLevelPolling a"
proof -
  from assms(5) obtain front ev where evs: "evs = front @ [ev]"
    by (metis rev_exhaust)
  have front: "pollRun a front = a\<lparr>pollErrorCountRef := pollErrorCountRef a + length front\<rparr>"
    using assms evs by (intro pollRun_failures_below_bound) auto
  have "pollTick ev (pollRun a front) = stopLevelPolling (pollRun a front)"
    using assms evs by (subst pollTick_both_fail) (auto simp: front)
  then show ?thesis
    using assms(3) by (auto simp: evs pollRun_snoc front stopLevelPolling_def)
qed

lemma pollTick_success:
  assumes "\<not> bothFail ev" and "\<not> pollInFlightRef a"
  shows "pollErrorCountRef (pollTick ev a) = 0" and "pollTimerRef (pollTick ev a) = pollTimerRef a"
    and "\<not> pollInFlightRef (pollTick ev a)" and "status (pollTick ev a) = status a"
  using assms
  by (auto simp: pollTick_def bothFail_def pollLevel_def pollPitch_def Let_def
        split: invoked.splits)

lemma pollTick_level_failed:
  assumes "tick_level ev = Rejected err" and "tick_pitch ev = Resolved raw" and "\<not> pollInFlightRef a"
  shows "rawInputLevelRef (pollTick ev a) = rawInputLevelRef a"
    and "inputLevelRef (pollTick ev a) = inputLevelRef a"
    and "rawInputLevel (pollTick ev a) = rawInputLevel a"
    and "inputLevel (pollTick ev a) = inputLevel a"
    and "capture (pollTick ev a) =
           handlePitchSampleForRangeTest (tick_now ev) (rawInputLevelRef a)
             \<lparr>frequency_hz = raw_frequency_hz raw,
              confidence = (case raw_confidence raw of Finite c \<Rightarrow> max 0 (min 1 c) | NonFinite \<Rightarrow> 0),
              note_name = raw_note_name raw, cents_offset = raw_cents_offset raw\<rparr>
             (capture a)"
  using assms
  by (simp_all add: pollTick_def pollLevel_def pollPitch_def Let_def)

lemma pollTick_pitch_failed:
  assumes "tick_pitch ev = Rejected err" and "tick_level ev = Resolved lv"
    and "\<not> pollInFlightRef a"
  shows "pitchData (pollTick ev a) = pitchData a" and "capture (pollTick ev a) = capture a"
  using assms
  by (auto simp: pollTick_def pollLevel_def pollPitch_def stopLevelPolling_def Let_def
        split: invoked.splits prod.splits)

text \<open>
  The loop under failures. While the loop is polling and no tick is in flight: a tick in
  which at least one call succeeds resets \<open>pollErrorCountRef\<close> and keeps the timer; when
  only the level call fails, the level cells keep their values and the handler is given the
  previous raw level; when only the pitch call fails, the pitch data and the capture state
  keep their values; fewer than 20 consecutive ticks in which both calls fail only raise the
  counter; and after 20 such ticks, counted from zero, the timer is cleared, the level
  cells are 0, the pitch data is reset, the counter is 0, and the capture state (and so the
  stage) and the status text are what they were.
\<close>

lemma polling_failures:
  assumes "\<not> pollInFlightRef a" and "pollTimerRef a \<noteq> None"
  shows "(\<not> bothFail ev \<longrightarrow>
            pollErrorCountRef (pollTick ev a) = 0 \<and> pollTimerRef (pollTick ev a) = pollTimerRef a)
       \<and> (\<forall>err raw. tick_level ev = Rejected err \<and> tick_pitch ev = Resolved raw \<longrightarrow>
            rawInputLevelRef (pollTick ev a) = rawInputLevelRef a
            \<and> inputLevelRef (pollTick ev a) = inputLevelRef a
            \<and> capture (pollTick ev a) =
                handlePitchSampleForRangeTest (tick_now ev) (rawInputLevelRef a)
                  \<lparr>frequency_hz = raw_frequency_hz raw,
                   confidence = (case raw_confidence raw of
                                   Finite c \<Rightarrow> max 0 (min 1 c) | NonFinite \<Rightarrow> 0),
                   note_name = raw_note_name raw, cents_offset = raw_cents_offset raw\<rparr>
                  (capture a))
       \<and> (\<forall>err lv. tick_pitch ev = Rejected err \<and> tick_level ev = Resolved lv \<longrightarrow>
            pitchData (pollTick ev a) = pitchData a \<and> capture (pollTick ev a) = capture a)
       \<and> ((\<forall>e \<in> set evs. bothFail e) \<and> pollErrorCountRef a + length evs < 20 \<longrightarrow>
            pollRun a evs = a\<lparr>pollErrorCountRef := pollErrorCountRef a + length evs\<rparr>)
       \<and> ((\<forall>e \<in> set evs. bothFail e) \<and> pollErrorCountRef a = 0 \<and> length evs = 20 \<longrightarrow>
            pollTimerRef (pollRun a evs) = None
            \<and> inputLevel (pollRun a evs) = 0 \<and> rawInputLevel (pollRun a evs) = 0
            \<and> inputLevelRef (pollRun a evs) = 0 \<and> rawInputLevelRef (pollRun a evs) = 0
            \<and> pitchData (pollRun a evs) = nullPitch
            \<and> pollErrorCountRef (pollRun a evs) = 0
            \<and> capture (pollRun a evs) = capture a
            \<and> status (pollRun a evs) = status a)"
proof (intro conjI impI allI)
  assume "\<not> bothFail ev"
  then show "pollErrorCountRef (pollTick ev a) = 0"
    and "pollTimerRef (pollTick ev a) = pollTimerRef a"
    using assms(1) by (simp_all add: pollTick_success)
next
  fix err raw
  assume "tick_level ev = Rejected err \<and> tick_pitch ev = Resolved raw"
  then have l: "tick_level ev = Rejected err" and p: "tick_pitch ev = Resolved raw" by simp_all
  show "rawInputLevelRef (pollTick ev a) = rawInputLevelRef a"
    and "inputLevelRef (pollTick ev a) = inputLevelRef a"
    and "capture (pollTick ev a) =
                handlePitchSampleForRangeTest (tick_now ev) (rawInputLevelRef a)
                  \<lparr>frequency_hz = raw_frequency_hz raw,
                   confidence = (case raw_confidence raw of
                                   Finite c \<Rightarrow> max 0 (min 1 c) | NonFinite \<Rightarrow> 0),
                   note_name = raw_note_name raw, cents_offset = raw_cents_offset raw\<rparr>
                  (capture a)"
    by (rule pollTick_level_failed [OF l p assms(1)])+
next
  fix err lv
  assume "tick_pitch ev = Rejected err \<and> tick_level ev = Resolved lv"
  then have p: "tick_pitch ev = Rejected err" and l: "tick_level ev = Resolved lv" by simp_all
  show "pitchData (pollTick ev a) = pitchData a" and "capture (pollTick ev a) = capture a"
    by (rule pollTick_pitch_failed [OF p l assms(1)])+
next
  assume "(\<forall>e \<in> set evs. bothFail e) \<and> pollErrorCountRef a + length evs < 20"
  then show "pollRun a evs = a\<lparr>pollErrorCountRef := pollErrorCountRef a + length evs\<rparr>"
    using assms by (intro pollRun_failures_below_bound) simp_all
next
  assume h: "(\<forall>e \<in> set evs. bothFail e) \<and> pollErrorCountRef a = 0 \<and> length evs = 20"
  then have "evs \<noteq> []" by auto
  with h assms have stop: "pollRun a evs = stopLevelPolling a"
    by (intro pollRun_twenty_failures) simp_all
  show "pollTimerRef (pollRun a evs) = None"
    and "inputLevel (pollRun a evs) = 0" and "rawInputLevel (pollRun a evs) = 0"
    and "inputLevelRef (pollRun a evs) = 0" and "rawInputLevelRef (pollRun a evs) = 0"
    and "pitchData (pollRun a evs) = nullPitch"
    and "pollErrorCountRef (pollRun a evs) = 0"
    and "capture (pollRun a evs) = capture a"
    and "status (pollRun a evs) = status a"
    by (simp_all add: stop stopLevelPolling_def)
qed

lemma listening_eq:
  "listening = initialApp\<lparr>pollTimerRef := Some 1, status := ''Audio input started''\<rparr>"
  by (simp add: listening_def startLevelPolling_def stopLevelPolling_def initialApp_def)

lemma failedTick_bothFail: "bothFail (failedTick now)"
  by (simp add: bothFail_def failedTick_def)

text \<open>
  C9 does not hold of the code. Every other failure path of the front end writes a status
  (\<^verbatim>\<open>setStatus\<close> at lines 526, 539, 549 and 623 of part\_001), and the change log of
  version 0.2.0 promises status messages for the failures of all \<^verbatim>\<open>invoke\<close> calls; the
  stop after 20 failed ticks calls \<open>stopLevelPolling\<close> only, which writes none. On the
  listening application the status bar shows a lit dot and \<open>Audio input started\<close>. After 20
  ticks in which both calls fail the loop has stopped, the level cells and the pitch data
  are cleared and the capture state is what it was; the dot of the status bar has gone
  out, and the status text still reads \<open>Audio input started\<close>.
\<close>

theorem stopped_loop_keeps_status_text:
  "statusBar listening = (True, ''Audio input started'')
   \<and> pollRun listening (replicate 19 (failedTick 0)) = listening\<lparr>pollErrorCountRef := 19\<rparr>
   \<and> pollRun listening (replicate 20 (failedTick 0)) = stopLevelPolling listening
   \<and> pollTimerRef (pollRun listening (replicate 20 (failedTick 0))) = None
   \<and> inputLevel (pollRun listening (replicate 20 (failedTick 0))) = 0
   \<and> rawInputLevel (pollRun listening (replicate 20 (failedTick 0))) = 0
   \<and> pitchData (pollRun listening (replicate 20 (failedTick 0))) = nullPitch
   \<and> capture (pollRun listening (replicate 20 (failedTick 0))) = capture listening
   \<and> statusBar (pollRun listening (replicate 20 (failedTick 0))) = (False, ''Audio input started'')"
proof -
  have nineteen: "pollRun listening (replicate 19 (failedTick 0)) = listening\<lparr>pollErrorCountRef := 19\<rparr>"
    using pollRun_failures_below_bound [of "replicate 19 (failedTick 0)" listening]
    by (simp add: failedTick_bothFail listening_eq initialApp_def)
  have stop: "pollRun listening (replicate 20 (failedTick 0)) = stopLevelPolling listening"
    by (rule pollRun_twenty_failures)
       (simp_all add: failedTick_bothFail listening_eq initialApp_def)
  show ?thesis
    unfolding stop nineteen
    by (simp add: stopLevelPolling_def listening_eq statusBar_def isStreamActive_def)
qed

subsection \<open>C10: the earlier and the redesigned handler\<close>

text \<open>The helpers of the earlier front end compute what the later ones compute.\<close>

lemma old_median_eq: "old_median = median"
  by (rule ext) (simp add: old_median_def median_def)

lemma old_frequencyToMidi_eq: "old_frequencyToMidi = frequencyToMidi"
  by (rule ext) (simp add: old_frequencyToMidi_def frequencyToMidi_def)

lemma old_resetStability_eq: "old_resetStability = resetStability"
  by (rule ext) (simp add: old_resetStability_def resetStability_def emptyStability_def)

lemma old_finishRangeTest_eq: "old_finishRangeTest = finishRangeTest"
  by (rule ext)
     (simp add: old_finishRangeTest_def finishRangeTest_def old_median_eq Let_def
        split: option.splits)

lemma old_completeStageWithMidi_eq: "old_completeStageWithMidi = completeStageWithMidi"
  by (intro ext)
     (simp add: old_completeStageWithMidi_def completeStageWithMidi_def old_resetStability_eq
        old_finishRangeTest_eq noFastPass_def old_HIGH_STAGE_MIN_DELAY_MS_def
        HIGH_STAGE_MIN_DELAY_MS_def old_HIGH_NOTE_MIN_SEMITONES_def HIGH_NOTE_MIN_SEMITONES_def
        Let_def split: option.splits)

lemma old_window_eq: "old_window = stabilityWindow"
  by (intro ext)
     (simp add: old_window_def stabilityWindow_def smoothMidi_def pushCapped_def
        old_frequencyToMidi_eq old_median_eq old_completeStageWithMidi_eq
        old_STABLE_NOTE_DELTA_def STABLE_NOTE_DELTA_def old_STABLE_REQUIRED_MS_def
        STABLE_REQUIRED_MS_def Let_def split: option.splits)

text \<open>
  Two states with the same image under \<open>withoutInstruction\<close> differ in the instruction
  only; and no part of the handler reads the instruction.
\<close>

lemma same_but_instruction:
  "withoutInstruction g = withoutInstruction g' \<Longrightarrow> g' = g\<lparr>testInstruction := testInstruction g'\<rparr>"
  by (cases g; cases g') (simp add: withoutInstruction_def)

lemma old_gate_eq:
  "withoutInstruction (old_gate t l s) = withoutInstruction (silenceGate t l s)"
  by (simp add: old_gate_def silenceGate_def withoutInstruction_def old_RMS_THRESHOLD_def
      RMS_THRESHOLD_def old_SILENCE_RESET_MS_def SILENCE_RESET_MS_def Let_def)

lemma silenceGate_instruction:
  "withoutInstruction (silenceGate t l (s\<lparr>testInstruction := x\<rparr>))
     = withoutInstruction (silenceGate t l s)"
  by (simp add: silenceGate_def withoutInstruction_def Let_def)

lemma completeStage_instruction:
  "withoutInstruction (completeStageWithMidi st m t (s\<lparr>testInstruction := x\<rparr>))
     = withoutInstruction (completeStageWithMidi st m t s)"
  by (simp add: completeStageWithMidi_def resetStability_def finishRangeTest_def
      withoutInstruction_def Let_def split: option.splits)

lemma instruction_before_fastPass: "s\<lparr>testInstruction := x, fastPassRef := fp\<rparr> = (s\<lparr>fastPassRef := fp\<rparr>)\<lparr>testInstruction := x\<rparr>"
  by simp

lemma instruction_before_window: "s\<lparr>testInstruction := x, sampleState := a, lastGoodPitchRef := b, stableRef := c,
                 stableHistoryRef := h, stabilityMs := d\<rparr>
    = (s\<lparr>sampleState := a, lastGoodPitchRef := b, stableRef := c,
                 stableHistoryRef := h, stabilityMs := d\<rparr>)\<lparr>testInstruction := x\<rparr>"
  by simp

lemma stabilityWindow_instruction:
  "withoutInstruction (stabilityWindow st t f (s\<lparr>testInstruction := x\<rparr>))
     = withoutInstruction (stabilityWindow st t f s)"
  by (simp add: stabilityWindow_def Let_def instruction_before_window completeStage_instruction)
     (simp add: withoutInstruction_def)

lemma invalidSample_instruction:
  "withoutInstruction (invalidSample t (s\<lparr>testInstruction := x\<rparr>))
     = withoutInstruction (invalidSample t s)"
  by (simp add: invalidSample_def resetStability_def withoutInstruction_def Let_def
      split: option.splits)

lemma validSample_instruction:
  "withoutInstruction (validSample st t p f (s\<lparr>testInstruction := x\<rparr>))
     = withoutInstruction (validSample st t p f s)"
  by (simp add: validSample_def Let_def instruction_before_fastPass completeStage_instruction
      stabilityWindow_instruction split: option.splits bool.splits)

lemma same_stage:
  "withoutInstruction g = withoutInstruction g' \<Longrightarrow> stageRef g' = stageRef g"
  by (drule same_but_instruction) (erule ssubst, simp)

text \<open>The earlier handler is the later pipeline behind the earlier gate.\<close>

lemma old_handler_pipeline:
  "old_handlePitchSampleForRangeTest t l p s =
     (if stageRef s \<noteq> CaptureLow \<and> stageRef s \<noteq> CaptureHigh then s
      else case frequency_hz p of
             None \<Rightarrow> invalidSample t (old_gate t l s)
           | Some f \<Rightarrow>
               if \<not> isValid l p then invalidSample t (old_gate t l s)
               else validSample (stageRef s) t p f (old_gate t l s))"
  by (cases "stageRef s"; cases "frequency_hz p"; cases "RMS_THRESHOLD < l"; cases "hasFreq p";
      cases "fp_startAt (fastPassRef (old_gate t l s))";
      cases "fp_stage (fastPassRef (old_gate t l s)) = Some (stageRef s)";
      cases "lastValidAt (stableRef (old_gate t l s))")
     (simp_all add: old_handlePitchSampleForRangeTest_def isValid_def hasFreq_def confidenceOk_def
        invalidSample_def validSample_def old_window_eq old_completeStageWithMidi_eq
        old_frequencyToMidi_eq old_resetStability_eq noFastPass_def
        old_CONFIDENCE_THRESHOLD_def CONFIDENCE_THRESHOLD_def old_RMS_THRESHOLD_def
        RMS_THRESHOLD_def old_CONFIDENCE_PASS_THRESHOLD_def CONFIDENCE_PASS_THRESHOLD_def
        old_CONFIDENCE_PASS_MS_def CONFIDENCE_PASS_MS_def Let_def)

lemma handler_step_agree:
  assumes "withoutInstruction s = withoutInstruction s'"
  shows "withoutInstruction (old_handlePitchSampleForRangeTest t l p s)
           = withoutInstruction (handlePitchSampleForRangeTest t l p s')"
proof -
  from same_but_instruction [OF assms] obtain y where s': "s' = s\<lparr>testInstruction := y\<rparr>" ..
  have "withoutInstruction (old_gate t l s) = withoutInstruction (silenceGate t l s')"
    unfolding s' by (simp only: old_gate_eq silenceGate_instruction)
  from same_but_instruction [OF this] obtain z
    where g: "silenceGate t l s' = (old_gate t l s)\<lparr>testInstruction := z\<rparr>" ..
  have st: "stageRef s' = stageRef s" by (rule same_stage [OF assms])
  have new: "handlePitchSampleForRangeTest t l p s' =
     (if stageRef s \<noteq> CaptureLow \<and> stageRef s \<noteq> CaptureHigh then s'
      else case frequency_hz p of
             None \<Rightarrow> invalidSample t ((old_gate t l s)\<lparr>testInstruction := z\<rparr>)
           | Some f \<Rightarrow>
               if \<not> isValid l p then invalidSample t ((old_gate t l s)\<lparr>testInstruction := z\<rparr>)
               else validSample (stageRef s) t p f ((old_gate t l s)\<lparr>testInstruction := z\<rparr>))"
    by (simp add: handlePitchSampleForRangeTest_def Let_def st g)
  show ?thesis
    unfolding new old_handler_pipeline
    using assms
    by (cases "stageRef s"; cases "frequency_hz p"; cases "isValid l p")
       (simp_all add: invalidSample_instruction validSample_instruction)
qed

lemma feed_agree:
  "withoutInstruction s = withoutInstruction s'
   \<Longrightarrow> withoutInstruction (old_feed s xs) = withoutInstruction (feed s' xs)"
proof (induction xs arbitrary: s s')
  case Nil
  then show ?case by simp
next
  case (Cons x xs)
  obtain t l p where x: "x = (t, l, p)" by (cases x)
  show ?case
    unfolding x old_feed.simps feed.simps
    by (rule Cons.IH) (rule handler_step_agree [OF Cons.prems])
qed

text \<open>
  C10. From the same capture state, the earlier handler and the redesigned handler produce
  the same state up to the instruction text, for one sample and for every stream of
  samples \<open>(timestamp, level, pitch)\<close>: the stage, the recorded low and high notes, the
  stability window with its anchor, the fast-pass cell, the stable history and the
  \<^verbatim>\<open>RangeResult\<close> are identical.
\<close>

theorem old_and_new_handlers_agree:
  "withoutInstruction (old_handlePitchSampleForRangeTest timestamp level pitch s)
     = withoutInstruction (handlePitchSampleForRangeTest timestamp level pitch s)
   \<and> withoutInstruction (old_feed s stream) = withoutInstruction (feed s stream)
   \<and> stageRef (old_feed s stream) = stageRef (feed s stream)
   \<and> lowMidiRef (old_feed s stream) = lowMidiRef (feed s stream)
   \<and> highMidiRef (old_feed s stream) = highMidiRef (feed s stream)
   \<and> stableRef (old_feed s stream) = stableRef (feed s stream)
   \<and> fastPassRef (old_feed s stream) = fastPassRef (feed s stream)
   \<and> stableHistoryRef (old_feed s stream) = stableHistoryRef (feed s stream)
   \<and> rangeResult (old_feed s stream) = rangeResult (feed s stream)"
proof -
  have step: "withoutInstruction (old_handlePitchSampleForRangeTest timestamp level pitch s)
     = withoutInstruction (handlePitchSampleForRangeTest timestamp level pitch s)"
    by (rule handler_step_agree) simp
  have run: "withoutInstruction (old_feed s stream) = withoutInstruction (feed s stream)"
    by (rule feed_agree) simp
  from same_but_instruction [OF run] obtain y
    where "feed s stream = (old_feed s stream)\<lparr>testInstruction := y\<rparr>" ..
  then have "stageRef (old_feed s stream) = stageRef (feed s stream)"
    and "lowMidiRef (old_feed s stream) = lowMidiRef (feed s stream)"
    and "highMidiRef (old_feed s stream) = highMidiRef (feed s stream)"
    and "stableRef (old_feed s stream) = stableRef (feed s stream)"
    and "fastPassRef (old_feed s stream) = fastPassRef (feed s stream)"
    and "stableHistoryRef (old_feed s stream) = stableHistoryRef (feed s stream)"
    and "rangeResult (old_feed s stream) = rangeResult (feed s stream)"
    by simp_all
  with step run show ?thesis by (intro conjI)
qed

text \<open>
  The theorem on a stream of two confident 440 Hz samples 250 ms apart: the earlier
  handler, like the later one, records the low note 69 and enters \<open>CaptureHigh\<close>.
\<close>

theorem old_and_new_handlers_agree_witness:
  "lowMidiRef (old_feed started [(0, 1/2, tone 440 (9/10)), (250, 1/2, tone 440 (9/10))]) = Some 69
   \<and> stageRef (old_feed started [(0, 1/2, tone 440 (9/10)), (250, 1/2, tone 440 (9/10))])
       = CaptureHigh
   \<and> rangeResult (old_feed started [(0, 1/2, tone 440 (9/10)), (250, 1/2, tone 440 (9/10))])
       = \<lparr>lowMidi = Some 69, highMidi = None, comfortLowMidi = None, comfortHighMidi = None\<rparr>"
proof -
  have new: "lowMidiRef (feed started [(0, 1/2, tone 440 (9/10)), (250, 1/2, tone 440 (9/10))])
        = Some 69
      \<and> stageRef (feed started [(0, 1/2, tone 440 (9/10)), (250, 1/2, tone 440 (9/10))])
        = CaptureHigh
      \<and> rangeResult (feed started [(0, 1/2, tone 440 (9/10)), (250, 1/2, tone 440 (9/10))])
        = \<lparr>lowMidi = Some 69, highMidi = None, comfortLowMidi = None, comfortHighMidi = None\<rparr>"
    by (simp add: started_eq handler_eval consts_eval)
  note agree = old_and_new_handlers_agree [where s = started
      and stream = "[(0, 1/2, tone 440 (9/10)), (250, 1/2, tone 440 (9/10))]"
      and timestamp = 0 and level = "1/2" and pitch = "tone 440 (9/10)"]
  note stage = agree [THEN conjunct2, THEN conjunct2, THEN conjunct1]
  note low = agree [THEN conjunct2, THEN conjunct2, THEN conjunct2, THEN conjunct1]
  note result = agree [THEN conjunct2, THEN conjunct2, THEN conjunct2, THEN conjunct2,
      THEN conjunct2, THEN conjunct2, THEN conjunct2, THEN conjunct2]
  from new show ?thesis unfolding stage low result .
qed

text \<open>
  The instruction text itself can differ: when an armed gate clears, the earlier handler
  asks for the highest comfortable 'ah' and the later one for the highest comfortable note.
\<close>

lemma instruction_text_differs:
  "testInstruction (old_handlePitchSampleForRangeTest 200 0 (tone 440 0)
      (started\<lparr>stageRef := CaptureHigh, waitForSilenceBeforeHighRef := True,
                silenceStartRef := Some 0\<rparr>))
     \<noteq> testInstruction (handlePitchSampleForRangeTest 200 0 (tone 440 0)
      (started\<lparr>stageRef := CaptureHigh, waitForSilenceBeforeHighRef := True,
                silenceStartRef := Some 0\<rparr>))"
  by (simp add: started_eq old_handlePitchSampleForRangeTest_def old_gate_def old_resetStability_def
      handler_eval consts_eval old_RMS_THRESHOLD_def old_SILENCE_RESET_MS_def)

end

